theory Spec2Isabelle
  imports Complex_Main
begin

section \<open>Curve interpolator (module \<open>$lib/core/math/Spline\<close>)\<close>

text \<open>
  JavaScript numbers are modelled as real numbers: arithmetic is exact, and the
  non-finite values (NaN, the infinities) and the rounding of IEEE doubles are outside
  this model. The formula of the curve is given a second time below, in the double
  arithmetic of the code, for the question whether its end points are exact.
  A \<open>PIXI.Point\<close> is a pair of coordinates; the selectors are called
  \<open>px\<close> and \<open>py\<close> so that \<open>x\<close> and \<open>y\<close> stay free for variables.
\<close>

datatype point = Point (px: real) (py: real)

text \<open>\<open>Math.hypot(a, b)\<close> with two arguments.\<close>

definition hypot :: "real \<Rightarrow> real \<Rightarrow> real" where
  "hypot a b = sqrt (a * a + b * b)"

text \<open>\<open>catmullRomPoint(t, p0, p1, p2, p3)\<close>, term by term as in the source.\<close>

definition catmullRomPoint :: "real \<Rightarrow> point \<Rightarrow> point \<Rightarrow> point \<Rightarrow> point \<Rightarrow> point" where
  "catmullRomPoint t p0 p1 p2 p3 =
     (let t2 = t * t;
          t3 = t2 * t;
          x = 0.5 * (
            (2 * px p1) +
            (- px p0 + px p2) * t +
            (2 * px p0 - 5 * px p1 + 4 * px p2 - px p3) * t2 +
            (- px p0 + 3 * px p1 - 3 * px p2 + px p3) * t3);
          y = 0.5 * (
            (2 * py p1) +
            (- py p0 + py p2) * t +
            (2 * py p0 - 5 * py p1 + 4 * py p2 - py p3) * t2 +
            (- py p0 + 3 * py p1 - 3 * py p2 + py p3) * t3)
      in Point x y)"

text \<open>
  The loop of \<open>catmullRomLength\<close>: \<open>for (let i = 1; i <= samples; i++)\<close>, carrying
  the accumulated length and the previous point. \<open>samples\<close> is a count, a natural number.
\<close>

function catmullRomLength_loop ::
  "point \<Rightarrow> point \<Rightarrow> point \<Rightarrow> point \<Rightarrow> nat \<Rightarrow> nat \<Rightarrow> real \<Rightarrow> point \<Rightarrow> real" where
  "catmullRomLength_loop p0 p1 p2 p3 samples i len prevPoint =
     (if i \<le> samples then
        (let t = real i / real samples;
             currPoint = catmullRomPoint t p0 p1 p2 p3
         in catmullRomLength_loop p0 p1 p2 p3 samples (i + 1)
              (len + hypot (px currPoint - px prevPoint) (py currPoint - py prevPoint))
              currPoint)
      else len)"
  by pat_completeness auto
termination
  by (relation "measure (\<lambda>(p0, p1, p2, p3, samples, i, len, prevPoint). Suc samples - i)") auto

declare catmullRomLength_loop.simps [simp del]

definition catmullRomLength :: "point \<Rightarrow> point \<Rightarrow> point \<Rightarrow> point \<Rightarrow> nat \<Rightarrow> real" where
  "catmullRomLength p0 p1 p2 p3 samples = catmullRomLength_loop p0 p1 p2 p3 samples 1 0 p1"

subsection \<open>The curve in double arithmetic\<close>

text \<open>
  The code computes in IEEE binary64. A finite double is kept as its exact value
  \<open>m * 2 ^ e\<close>, written \<open>Fin m e\<close>; the pair is not normalised (several pairs stand for one
  number) and the sign of zero is not kept. \<open>NonFinite\<close> stands for the infinities and
  NaN: addition, subtraction and multiplication give a non-finite result whenever an
  operand is non-finite.
\<close>

datatype double = Fin int int | NonFinite

text \<open>The number of binary digits of a natural number.\<close>

function bits :: "nat \<Rightarrow> nat" where
  "bits n = (if n = 0 then 0 else Suc (bits (n div 2)))"
  by pat_completeness auto
termination
  by (relation "measure id") auto

declare bits.simps [simp del]

text \<open>\<open>m / 2 ^ k\<close> rounded to the nearest integer, a tie to the even one.\<close>

definition round_even :: "int \<Rightarrow> nat \<Rightarrow> int" where
  "round_even m k =
     (let q = m div 2 ^ k;
          r = m mod 2 ^ k
      in if 2 * r < 2 ^ k then q
         else if 2 * r > 2 ^ k then q + 1
         else if even q then q else q + 1)"

text \<open>
  Overflow: a result of magnitude \<open>2 ^ 1024\<close> or more, after rounding, is not finite.
\<close>

definition finite_double :: "int \<Rightarrow> int \<Rightarrow> double" where
  "finite_double m e =
     (if m \<noteq> 0 \<and> int (bits (nat \<bar>m\<bar>)) + e > 1024 then NonFinite else Fin m e)"

text \<open>
  The double nearest to \<open>m * 2 ^ e\<close>: 53 significant digits, ties to even, and no digit
  below \<open>2 ^ (- 1074)\<close> (gradual underflow).
\<close>

definition to_double :: "int \<Rightarrow> int \<Rightarrow> double" where
  "to_double m e =
     (let k = max (int (bits (nat \<bar>m\<bar>)) - 53) (- 1074 - e)
      in if k \<le> 0 then finite_double m e
         else finite_double (round_even m (nat k)) (e + k))"

text \<open>
  The operations of the code on doubles: each is the exact result, rounded once.
  \<open>a - b\<close> is \<open>a + (- b)\<close>.
\<close>

fun dneg :: "double \<Rightarrow> double" where
  "dneg (Fin m e) = Fin (- m) e"
| "dneg NonFinite = NonFinite"

fun dadd :: "double \<Rightarrow> double \<Rightarrow> double" where
  "dadd (Fin m1 e1) (Fin m2 e2) =
     (let e = min e1 e2
      in to_double (m1 * 2 ^ nat (e1 - e) + m2 * 2 ^ nat (e2 - e)) e)"
| "dadd _ _ = NonFinite"

definition dsub :: "double \<Rightarrow> double \<Rightarrow> double" where
  "dsub a b = dadd a (dneg b)"

fun dmul :: "double \<Rightarrow> double \<Rightarrow> double" where
  "dmul (Fin m1 e1) (Fin m2 e2) = to_double (m1 * m2) (e1 + e2)"
| "dmul _ _ = NonFinite"

text \<open>
  \<open>a === b\<close> on finite doubles: the same value. (For non-finite operands the model
  answers \<open>False\<close>, which is right for NaN only.)
\<close>

fun deq :: "double \<Rightarrow> double \<Rightarrow> bool" where
  "deq (Fin m1 e1) (Fin m2 e2) =
     (let e = min e1 e2 in m1 * 2 ^ nat (e1 - e) = m2 * 2 ^ nat (e2 - e))"
| "deq _ _ = False"

text \<open>
  A point with double coordinates, and \<open>catmullRomPoint\<close> as the code computes it: the
  same expression, with the operations in the order in which JavaScript evaluates them
  (\<open>a + b + c + d\<close> is \<open>((a + b) + c) + d\<close>, and \<open>-a + b\<close> is \<open>(-a) + b\<close>).
\<close>

datatype dpoint = DPoint (dx: double) (dy: double)

definition catmullRomPoint_d :: "double \<Rightarrow> dpoint \<Rightarrow> dpoint \<Rightarrow> dpoint \<Rightarrow> dpoint \<Rightarrow> dpoint" where
  "catmullRomPoint_d t p0 p1 p2 p3 =
     (let t2 = dmul t t;
          t3 = dmul t2 t;
          x = dmul (Fin 1 (- 1)) (
            dadd (dadd (dadd
              (dmul (Fin 2 0) (dx p1))
              (dmul (dadd (dneg (dx p0)) (dx p2)) t))
              (dmul (dsub (dadd (dsub (dmul (Fin 2 0) (dx p0)) (dmul (Fin 5 0) (dx p1)))
                                (dmul (Fin 4 0) (dx p2))) (dx p3)) t2))
              (dmul (dadd (dsub (dadd (dneg (dx p0)) (dmul (Fin 3 0) (dx p1)))
                                (dmul (Fin 3 0) (dx p2))) (dx p3)) t3));
          y = dmul (Fin 1 (- 1)) (
            dadd (dadd (dadd
              (dmul (Fin 2 0) (dy p1))
              (dmul (dadd (dneg (dy p0)) (dy p2)) t))
              (dmul (dsub (dadd (dsub (dmul (Fin 2 0) (dy p0)) (dmul (Fin 5 0) (dy p1)))
                                (dmul (Fin 4 0) (dy p2))) (dy p3)) t2))
              (dmul (dadd (dsub (dadd (dneg (dy p0)) (dmul (Fin 3 0) (dy p1)))
                                (dmul (Fin 3 0) (dy p2))) (dy p3)) t3))
      in DPoint x y)"

text \<open>
  The finite doubles, each in a representation with at most 53 digits: the magnitudes
  \<open>m * 2 ^ e\<close> with \<open>m < 2 ^ 53\<close> and \<open>e\<close> from -1074 to 971. Among them, the doubles of
  magnitude below \<open>2 ^ 993\<close>: sums and products of a few of them do not overflow.
\<close>

fun is_double :: "double \<Rightarrow> bool" where
  "is_double (Fin m e) \<longleftrightarrow> \<bar>m\<bar> < 2 ^ 53 \<and> - 1074 \<le> e \<and> e \<le> 971"
| "is_double NonFinite \<longleftrightarrow> False"

fun moderate :: "double \<Rightarrow> bool" where
  "moderate (Fin m e) \<longleftrightarrow> \<bar>m\<bar> < 2 ^ 53 \<and> - 1074 \<le> e \<and> e \<le> 940"
| "moderate NonFinite \<longleftrightarrow> False"

section \<open>Brush model (module \<open>$lib/core/brushes/Brush\<close>)\<close>

text \<open>
  A texture is either \<open>PIXI.Texture.EMPTY\<close> or some other texture, named by a handle.
  The field \<open>size\<close> of the brush is called \<open>size'\<close> here, and a local variable
  that has the name of a field (\<open>jitter\<close>, \<open>spacing\<close>) carries a prime.
\<close>

datatype texture = EMPTY | Texture nat

record BrushShape =
  texture :: texture
  grainTexture :: texture

record BrushStrokePath =
  spacing :: real
  jitter :: real
  falloff :: real

record BrushGrain =
  scale :: real
  intensity :: real
  rotation :: real

record Brush =
  shape :: BrushShape
  stroke :: BrushStrokePath
  grain :: BrushGrain
  size' :: real
  color :: string
  alpha :: real

text \<open>The settings the constructor of \<open>Brush\<close> assigns.\<close>

definition defaultBrush :: Brush where
  "defaultBrush =
     \<lparr> shape = \<lparr> texture = EMPTY, grainTexture = EMPTY \<rparr>,
       stroke = \<lparr> spacing = 0.05, jitter = 0, falloff = 0 \<rparr>,
       grain = \<lparr> scale = 1.0, intensity = 0.5, rotation = 0 \<rparr>,
       size' = 50,
       color = ''#000000'',
       alpha = 1.0 \<rparr>"

section \<open>The canvas component (\<open>Canvas.svelte\<close>)\<close>

subsection \<open>State\<close>

text \<open>
  A sprite of the scene. \<open>sprite_id\<close> is the identity of the object (two sprites with
  the same attributes are still two objects); \<open>sprite_tint\<close> is the colour string the
  colour matrix filter of a stamp is built from (\<open>None\<close> for a sprite without filters).
\<close>

datatype blendMode = Normal | Multiply

record Sprite =
  sprite_id :: nat
  sprite_texture :: texture
  sprite_anchor :: real
  sprite_x :: real
  sprite_y :: real
  sprite_width :: real
  sprite_height :: real
  sprite_rotation :: real
  sprite_alpha :: real
  sprite_blendMode :: blendMode
  sprite_tint :: "string option"

text \<open>
  The component state after \<open>onMount\<close>. Besides the variables of the component it holds
  what the component changes in its environment: the children of \<open>app.stage\<close> other
  than the permanent sprite (\<open>stage\<close>), the sprites on which \<open>destroy\<close> was called
  (\<open>destroyed\<close>), the timeouts of the event loop that are pending (\<open>timers\<close>, each one
  calls \<open>flatten\<close> when it fires), the next timeout handle (\<open>nextTimer\<close>), the next
  object identity (\<open>nextSprite\<close>) and the number of calls of \<open>Math.random\<close> made so
  far (\<open>randoms\<close>). \<open>permanentSprite\<close> is the texture of the permanent sprite,
  \<open>flattenTimeout\<close> is \<open>None\<close> while the variable is undefined.
\<close>

record canvas =
  isDrawing :: bool
  pathPoints :: "point list"
  pressurePoints :: "real list"
  trail :: "Sprite list"
  permanentSprite :: texture
  flattenTimeout :: "nat option"
  stage :: "Sprite list"
  destroyed :: "nat list"
  timers :: "nat list"
  nextTimer :: nat
  nextSprite :: nat
  randoms :: nat

definition initialCanvas :: canvas where
  "initialCanvas =
     \<lparr> isDrawing = False, pathPoints = [], pressurePoints = [], trail = [],
       permanentSprite = EMPTY, flattenTimeout = None, stage = [], destroyed = [],
       timers = [], nextTimer = 1, nextSprite = 0, randoms = 0 \<rparr>"

text \<open>A pointer event: \<open>event.global\<close> and \<open>event.pressure\<close>.\<close>

record pointerEvent =
  ev_global :: point
  ev_pressure :: real

text \<open>
  What a handler can throw: a \<open>TypeError\<close> when a property of \<open>undefined\<close> is read,
  and the exception of a failed \<open>generateTexture\<close>. A handler returns the exception, if
  any, with the state at that moment.
\<close>

datatype error = TypeError | RasterError

subsection \<open>Reading arrays\<close>

text \<open>\<open>xs[i]\<close>: \<open>undefined\<close> (\<open>None\<close>) outside \<open>0 .. xs.length - 1\<close>.\<close>

definition js_index :: "'a list \<Rightarrow> int \<Rightarrow> 'a option" where
  "js_index xs i = (if 0 \<le> i \<and> i < int (length xs) then Some (xs ! nat i) else None)"

text \<open>\<open>a || b\<close> on objects: \<open>b\<close> when \<open>a\<close> is undefined.\<close>

definition js_or :: "'a option \<Rightarrow> 'a option \<Rightarrow> 'a option" where
  "js_or a b = (case a of None \<Rightarrow> b | Some v \<Rightarrow> Some v)"

text \<open>\<open>a || b\<close> on numbers: \<open>b\<close> when \<open>a\<close> is undefined or zero.\<close>

definition js_or_num :: "real option \<Rightarrow> real option \<Rightarrow> real option" where
  "js_or_num a b = (case a of None \<Rightarrow> b | Some v \<Rightarrow> if v = 0 then b else Some v)"

subsection \<open>Stamping\<close>

text \<open>
  \<open>paintBrush(x, y, pressure)\<close>. The two random draws are the next two values of the
  sequence \<open>rnd\<close>. The stamp is constructed before the grain sprite and added after it.
\<close>

definition paintBrush :: "Brush \<Rightarrow> (nat \<Rightarrow> real) \<Rightarrow> real \<Rightarrow> real \<Rightarrow> real \<Rightarrow> canvas \<Rightarrow> canvas" where
  "paintBrush brush rnd x y pressure st =
     (let actualPressure = (if pressure > 0 then pressure else 0.5);
          stampSize = size' brush * actualPressure;
          jitter' = stampSize * jitter (stroke brush);
          randomX = x + (rnd (randoms st) - 0.5) * jitter';
          randomY = y + (rnd (randoms st + 1) - 0.5) * jitter';
          stamp = \<lparr> sprite_id = nextSprite st,
                    sprite_texture = texture (shape brush),
                    sprite_anchor = 0.5,
                    sprite_x = randomX,
                    sprite_y = randomY,
                    sprite_width = stampSize,
                    sprite_height = stampSize,
                    sprite_rotation = 0,
                    sprite_alpha = max 0.2 (actualPressure * alpha brush),
                    sprite_blendMode = Normal,
                    sprite_tint = Some (color brush) \<rparr>;
          st1 = st \<lparr> randoms := randoms st + 2, nextSprite := nextSprite st + 1 \<rparr>;
          st2 = (if grainTexture (shape brush) \<noteq> EMPTY then
                   (let grainSprite = \<lparr> sprite_id = nextSprite st1,
                                         sprite_texture = grainTexture (shape brush),
                                         sprite_anchor = 0.5,
                                         sprite_x = randomX,
                                         sprite_y = randomY,
                                         sprite_width = stampSize * scale (grain brush),
                                         sprite_height = stampSize * scale (grain brush),
                                         sprite_rotation = rotation (grain brush),
                                         sprite_alpha = intensity (grain brush),
                                         sprite_blendMode = Multiply,
                                         sprite_tint = None \<rparr>
                    in st1 \<lparr> nextSprite := nextSprite st1 + 1,
                             stage := stage st1 @ [grainSprite],
                             trail := trail st1 @ [grainSprite] \<rparr>)
                 else st1)
      in st2 \<lparr> stage := stage st2 @ [stamp], trail := trail st2 @ [stamp] \<rparr>)"

text \<open>The loop of \<open>drawSplineSegment\<close>: \<open>for (let i = 0; i <= numSteps; i++)\<close>.\<close>

function drawSplineSegment_loop ::
  "Brush \<Rightarrow> (nat \<Rightarrow> real) \<Rightarrow> point \<Rightarrow> point \<Rightarrow> point \<Rightarrow> point \<Rightarrow> real \<Rightarrow> real \<Rightarrow>
   int \<Rightarrow> int \<Rightarrow> canvas \<Rightarrow> canvas" where
  "drawSplineSegment_loop brush rnd p0 p1 p2 p3 pressure1 pressure2 numSteps i st =
     (if i \<le> numSteps then
        (let t = real_of_int i / real_of_int numSteps;
             pointOnSpline = catmullRomPoint t p0 p1 p2 p3;
             interpolatedPressure = pressure1 + (pressure2 - pressure1) * t
         in drawSplineSegment_loop brush rnd p0 p1 p2 p3 pressure1 pressure2 numSteps (i + 1)
              (paintBrush brush rnd (px pointOnSpline) (py pointOnSpline) interpolatedPressure st))
      else st)"
  by pat_completeness auto
termination
  by (relation "measure (\<lambda>(brush, rnd, p0, p1, p2, p3, pressure1, pressure2, numSteps, i, st).
        nat (numSteps + 1 - i))") auto

declare drawSplineSegment_loop.simps [simp del]

text \<open>
  \<open>drawSplineSegment(p0, p1, p2, p3, pressure1, pressure2)\<close>; the length is estimated
  with the default of 20 samples.
\<close>

definition drawSplineSegment ::
  "Brush \<Rightarrow> (nat \<Rightarrow> real) \<Rightarrow> point \<Rightarrow> point \<Rightarrow> point \<Rightarrow> point \<Rightarrow> real \<Rightarrow> real \<Rightarrow> canvas \<Rightarrow> canvas" where
  "drawSplineSegment brush rnd p0 p1 p2 p3 pressure1 pressure2 st =
     (let segmentLength = catmullRomLength p0 p1 p2 p3 20;
          avgPressure = (pressure1 + pressure2) / 2;
          actualPressure = (if avgPressure > 0 then avgPressure else 0.5);
          brushSize = size' brush * actualPressure;
          spacing' = max 1 (brushSize * spacing (stroke brush));
          numSteps = max 1 \<lceil>segmentLength / spacing'\<rceil>
      in drawSplineSegment_loop brush rnd p0 p1 p2 p3 pressure1 pressure2 numSteps 0 st)"

text \<open>
  A call of \<open>drawSplineSegment\<close> with arguments read from the arrays, any of which may
  be undefined. An undefined control point makes \<open>catmullRomPoint\<close> throw at its first
  use, inside \<open>catmullRomLength\<close>, before anything is painted. An undefined pressure
  throws nothing: the average and every interpolated pressure are then NaN, the tests
  \<open>avgPressure > 0\<close> and \<open>pressure > 0\<close> fail, and 0.5 is used in each place, which is what
  the two pressures 0 and 0 give.
\<close>

type_synonym segmentArgs =
  "point option \<times> point option \<times> point option \<times> point option \<times> real option \<times> real option"

fun drawSplineSegment_call ::
  "Brush \<Rightarrow> (nat \<Rightarrow> real) \<Rightarrow> segmentArgs \<Rightarrow> canvas \<Rightarrow> error option \<times> canvas" where
  "drawSplineSegment_call brush rnd (Some p0, Some p1, Some p2, Some p3, Some pressure1, Some pressure2) st =
     (None, drawSplineSegment brush rnd p0 p1 p2 p3 pressure1 pressure2 st)"
| "drawSplineSegment_call brush rnd (Some p0, Some p1, Some p2, Some p3, _, _) st =
     (None, drawSplineSegment brush rnd p0 p1 p2 p3 0 0 st)"
| "drawSplineSegment_call brush rnd _ st = (Some TypeError, st)"

subsection \<open>Pointer handlers\<close>

definition onDrawStart :: "pointerEvent \<Rightarrow> canvas \<Rightarrow> canvas" where
  "onDrawStart event st =
     st \<lparr> isDrawing := True,
          pathPoints := [ev_global event],
          pressurePoints := [ev_pressure event] \<rparr>"

text \<open>
  The arguments \<open>onDrawMove\<close> passes to \<open>drawSplineSegment\<close>, from the arrays
  \<open>pathPoints\<close> (here \<open>pts\<close>) and \<open>pressurePoints\<close> (here \<open>prs\<close>) after the new point
  was pushed; \<open>None\<close> is the return at \<open>i < 1\<close>, with no segment drawn.
\<close>

definition moveSegment :: "point list \<Rightarrow> real list \<Rightarrow> segmentArgs option" where
  "moveSegment pts prs =
     (if length pts = 2 then
        (let p0 = js_index pts 0;
             p1 = js_index pts 0;
             p2 = js_index pts 1;
             p3 = js_index pts 1;
             pressure1 = js_index prs 0;
             pressure2 = js_index prs 1
         in Some (p0, p1, p2, p3, pressure1, pressure2))
      else
        (let i = int (length pts) - 2
         in if i < 1 then None
            else
              (let p0 = js_or (js_index pts (i - 1)) (js_index pts i);
                   p1 = js_index pts i;
                   p2 = js_index pts (i + 1);
                   p3 = js_or (js_index pts (i + 2)) p2;
                   pressure1 = js_index prs i;
                   pressure2 = js_index prs (i + 1)
               in Some (p0, p1, p2, p3, pressure1, pressure2))))"

definition onDrawMove ::
  "Brush \<Rightarrow> (nat \<Rightarrow> real) \<Rightarrow> pointerEvent \<Rightarrow> canvas \<Rightarrow> error option \<times> canvas" where
  "onDrawMove brush rnd event st =
     (if \<not> isDrawing st then (None, st)
      else
        (let newPoint = ev_global event
         in case js_index (pathPoints st) (int (length (pathPoints st)) - 1) of
              None \<Rightarrow> (Some TypeError, st)
            | Some lastPoint \<Rightarrow>
                if hypot (px newPoint - px lastPoint) (py newPoint - py lastPoint) < 4
                then (None, st)
                else
                  (let st1 = st \<lparr> pathPoints := pathPoints st @ [newPoint],
                                  pressurePoints := pressurePoints st @ [ev_pressure event] \<rparr>
                   in case moveSegment (pathPoints st1) (pressurePoints st1) of
                        None \<Rightarrow> (None, st1)
                      | Some args \<Rightarrow> drawSplineSegment_call brush rnd args st1)))"

text \<open>The arguments \<open>onDrawEnd\<close> passes to \<open>drawSplineSegment\<close>.\<close>

definition endSegment :: "point list \<Rightarrow> real list \<Rightarrow> segmentArgs" where
  "endSegment pts prs =
     (let i = int (length pts) - 2;
          p0 = js_or (js_index pts (i - 1)) (js_index pts i);
          p1 = js_index pts i;
          p2 = js_or (js_index pts (i + 1)) p1;
          p3 = p2;
          pressure1 = js_index prs i;
          pressure2 = js_or_num (js_index prs (i + 1)) pressure1
      in (p0, p1, p2, p3, pressure1, pressure2))"

subsection \<open>Flattening\<close>

text \<open>\<open>clearTimeout(h)\<close> and \<open>sprite.destroy()\<close>, which also removes the sprite from the stage.\<close>

definition clearTimeout :: "nat \<Rightarrow> canvas \<Rightarrow> canvas" where
  "clearTimeout h st = st \<lparr> timers := removeAll h (timers st) \<rparr>"

definition destroy :: "Sprite \<Rightarrow> canvas \<Rightarrow> canvas" where
  "destroy sprite st =
     st \<lparr> stage := filter (\<lambda>c. sprite_id c \<noteq> sprite_id sprite) (stage st),
          destroyed := destroyed st @ [sprite_id sprite] \<rparr>"

text \<open>
  \<open>scheduleFlatten\<close>: a handle is truthy when it is not zero; \<open>setTimeout\<close> returns the
  next handle and makes it pending.
\<close>

definition scheduleFlatten :: "canvas \<Rightarrow> canvas" where
  "scheduleFlatten st =
     (let st1 = (case flattenTimeout st of
                   None \<Rightarrow> st
                 | Some h \<Rightarrow> if h \<noteq> 0 then clearTimeout h st else st);
          h' = nextTimer st1
      in st1 \<lparr> flattenTimeout := Some h', timers := timers st1 @ [h'], nextTimer := h' + 1 \<rparr>)"

definition onDrawEnd :: "Brush \<Rightarrow> (nat \<Rightarrow> real) \<Rightarrow> canvas \<Rightarrow> error option \<times> canvas" where
  "onDrawEnd brush rnd st =
     (case (if isDrawing st \<and> length (pathPoints st) > 1
            then drawSplineSegment_call brush rnd (endSegment (pathPoints st) (pressurePoints st)) st
            else (None, st)) of
        (Some e, st1) \<Rightarrow> (Some e, st1)
      | (None, st1) \<Rightarrow>
          (None, scheduleFlatten (st1 \<lparr> isDrawing := False, pathPoints := [], pressurePoints := [] \<rparr>)))"

text \<open>
  The loop shared by \<open>flatten\<close> and \<open>clear\<close>:
  \<open>while (trail.length) { const sprite = trail.pop(); if (sprite) sprite.destroy(); }\<close>.
  A sprite is an object, so the test \<open>if (sprite)\<close> always succeeds.
\<close>

function drainTrail :: "canvas \<Rightarrow> canvas" where
  "drainTrail st =
     (if trail st \<noteq> [] then
        (let sprite = last (trail st);
             st1 = st \<lparr> trail := butlast (trail st) \<rparr>
         in drainTrail (destroy sprite st1))
      else st)"
  by pat_completeness auto
termination
  by (relation "measure (\<lambda>st. length (trail st))") (auto simp: destroy_def)

declare drainTrail.simps [simp del]

text \<open>
  \<open>flatten\<close>, with \<open>app.renderer.generateTexture\<close> as a parameter: from the texture of the
  permanent sprite and the other children of the stage it gives a texture or throws.
\<close>

definition flatten :: "(texture \<Rightarrow> Sprite list \<Rightarrow> error + texture) \<Rightarrow> canvas \<Rightarrow> error option \<times> canvas" where
  "flatten generateTexture st =
     (case generateTexture (permanentSprite st) (stage st) of
        Inl e \<Rightarrow> (Some e, st)
      | Inr renderTexture \<Rightarrow> (None, drainTrail (st \<lparr> permanentSprite := renderTexture \<rparr>)))"

definition clear :: "canvas \<Rightarrow> canvas" where
  "clear st = drainTrail (st \<lparr> permanentSprite := EMPTY \<rparr>)"

text \<open>The event loop runs a pending timeout: it is no longer pending, and \<open>flatten\<close> is called.\<close>

definition fireTimer ::
  "(texture \<Rightarrow> Sprite list \<Rightarrow> error + texture) \<Rightarrow> nat \<Rightarrow> canvas \<Rightarrow> error option \<times> canvas" where
  "fireTimer generateTexture h st =
     (if h \<in> set (timers st) then flatten generateTexture (clearTimeout h st) else (None, st))"

subsection \<open>Runs\<close>

text \<open>
  The inputs of the component, and a run over a list of them. An exception ends the handler
  that threw it; the next input finds the state as the exception left it.
\<close>

datatype event = Start pointerEvent | Move pointerEvent | End | Clear | Timer nat

fun step ::
  "Brush \<Rightarrow> (nat \<Rightarrow> real) \<Rightarrow> (texture \<Rightarrow> Sprite list \<Rightarrow> error + texture) \<Rightarrow> event \<Rightarrow> canvas \<Rightarrow>
   error option \<times> canvas" where
  "step brush rnd generateTexture (Start e) st = (None, onDrawStart e st)"
| "step brush rnd generateTexture (Move e) st = onDrawMove brush rnd e st"
| "step brush rnd generateTexture End st = onDrawEnd brush rnd st"
| "step brush rnd generateTexture Clear st = (None, clear st)"
| "step brush rnd generateTexture (Timer h) st = fireTimer generateTexture h st"

fun run ::
  "Brush \<Rightarrow> (nat \<Rightarrow> real) \<Rightarrow> (texture \<Rightarrow> Sprite list \<Rightarrow> error + texture) \<Rightarrow> event list \<Rightarrow> canvas \<Rightarrow>
   canvas" where
  "run brush rnd generateTexture [] st = st"
| "run brush rnd generateTexture (e # es) st =
     run brush rnd generateTexture es (snd (step brush rnd generateTexture e st))"

section \<open>Notions of the specification\<close>

text \<open>The pressure that is used in place of a given one: 0.5 when it is not positive.\<close>

definition effectivePressure :: "real \<Rightarrow> real" where
  "effectivePressure p = (if p > 0 then p else 0.5)"

text \<open>Spacing and stamp count of a segment, as the specification words them.\<close>

definition segmentSpacing :: "Brush \<Rightarrow> real \<Rightarrow> real \<Rightarrow> real" where
  "segmentSpacing brush pressure1 pressure2 =
     max 1 (size' brush * effectivePressure ((pressure1 + pressure2) / 2) * spacing (stroke brush))"

definition stampCount :: "Brush \<Rightarrow> point \<Rightarrow> point \<Rightarrow> point \<Rightarrow> point \<Rightarrow> real \<Rightarrow> real \<Rightarrow> int" where
  "stampCount brush p0 p1 p2 p3 pressure1 pressure2 =
     max 1 \<lceil>catmullRomLength p0 p1 p2 p3 20 / segmentSpacing brush pressure1 pressure2\<rceil>"

text \<open>
  The stamp requests of a segment: for each \<open>i\<close> from 0 to the stamp count, the point of
  the curve at \<open>t = i / count\<close> with the pressure interpolated at \<open>t\<close>.
\<close>

definition stampRequest ::
  "point \<Rightarrow> point \<Rightarrow> point \<Rightarrow> point \<Rightarrow> real \<Rightarrow> real \<Rightarrow> int \<Rightarrow> int \<Rightarrow> point \<times> real" where
  "stampRequest p0 p1 p2 p3 pressure1 pressure2 n i =
     (catmullRomPoint (real_of_int i / real_of_int n) p0 p1 p2 p3,
      pressure1 + (pressure2 - pressure1) * (real_of_int i / real_of_int n))"

definition stampRequests ::
  "Brush \<Rightarrow> point \<Rightarrow> point \<Rightarrow> point \<Rightarrow> point \<Rightarrow> real \<Rightarrow> real \<Rightarrow> (point \<times> real) list" where
  "stampRequests brush p0 p1 p2 p3 pressure1 pressure2 =
     map (stampRequest p0 p1 p2 p3 pressure1 pressure2
            (stampCount brush p0 p1 p2 p3 pressure1 pressure2))
         [0 .. stampCount brush p0 p1 p2 p3 pressure1 pressure2]"

text \<open>Painting a list of requests in order, one call of \<open>paintBrush\<close> for each.\<close>

definition paintRequests :: "Brush \<Rightarrow> (nat \<Rightarrow> real) \<Rightarrow> (point \<times> real) list \<Rightarrow> canvas \<Rightarrow> canvas" where
  "paintRequests brush rnd reqs st =
     foldl (\<lambda>s r. paintBrush brush rnd (px (fst r)) (py (fst r)) (snd r) s) st reqs"

text \<open>
  A move is accepted in a state when a stroke is active, the path is not empty and the new
  point is not closer than 4 to the last point of the path; \<open>pushPoint\<close> is the state with
  the point and its pressure appended.
\<close>

definition accepted :: "pointerEvent \<Rightarrow> canvas \<Rightarrow> bool" where
  "accepted e st \<longleftrightarrow>
     isDrawing st \<and> pathPoints st \<noteq> [] \<and>
     \<not> hypot (px (ev_global e) - px (last (pathPoints st)))
              (py (ev_global e) - py (last (pathPoints st))) < 4"

definition pushPoint :: "pointerEvent \<Rightarrow> canvas \<Rightarrow> canvas" where
  "pushPoint e st =
     st \<lparr> pathPoints := pathPoints st @ [ev_global e],
          pressurePoints := pressurePoints st @ [ev_pressure e] \<rparr>"

text \<open>
  What every reachable state satisfies: the two arrays of the path have the same length,
  and the path is not empty while a stroke is active.
\<close>

definition pathInvariant :: "canvas \<Rightarrow> bool" where
  "pathInvariant st \<longleftrightarrow>
     length (pressurePoints st) = length (pathPoints st) \<and> (isDrawing st \<longrightarrow> pathPoints st \<noteq> [])"

text \<open>The four control points among the arguments of a segment.\<close>

definition controlPoints ::
  "segmentArgs \<Rightarrow> point option \<times> point option \<times> point option \<times> point option" where
  "controlPoints args = (case args of (p0, p1, p2, p3, pressure1, pressure2) \<Rightarrow> (p0, p1, p2, p3))"

text \<open>The sprites one call of \<open>paintBrush\<close> adds: the stamp, and a grain sprite if there is grain.\<close>

definition spritesPerStamp :: "Brush \<Rightarrow> nat" where
  "spritesPerStamp brush = (if grainTexture (shape brush) \<noteq> EMPTY then 2 else 1)"

text \<open>
  The parameter at which the curve with doubled end points, \<open>catmullRomPoint t p p q q\<close>,
  is on the straight line from \<open>p\<close> to \<open>q\<close>.
\<close>

definition ease :: "real \<Rightarrow> real" where
  "ease t = (t + 3 * (t * t) - 2 * (t * t * t)) / 2"

text \<open>
  Notions for the proofs about doubles: \<open>valued d m s\<close>, the double \<open>d\<close> is \<open>m * 2 ^ s\<close> in
  some representation; \<open>is_zero d\<close>, it is zero; \<open>below d n\<close>, it is finite and its
  magnitude \<open>dmag\<close> is below \<open>2 ^ n\<close>.
\<close>

definition valued :: "double \<Rightarrow> int \<Rightarrow> int \<Rightarrow> bool" where
  "valued d m s \<longleftrightarrow> (\<exists>j. d = Fin (m * 2 ^ j) (s - int j))"

definition is_zero :: "double \<Rightarrow> bool" where
  "is_zero d \<longleftrightarrow> (\<exists>e. d = Fin 0 e)"

definition dmag :: "int \<Rightarrow> int \<Rightarrow> real" where
  "dmag m e = \<bar>real_of_int m\<bar> * 2 powr real_of_int e"

definition below :: "double \<Rightarrow> int \<Rightarrow> bool" where
  "below d n \<longleftrightarrow> (\<exists>m e. d = Fin m e \<and> dmag m e < 2 powr real_of_int n)"

text \<open>The sample points of the length estimate and the distance of two points.\<close>

definition polyline :: "point \<Rightarrow> point \<Rightarrow> point \<Rightarrow> point \<Rightarrow> nat \<Rightarrow> nat \<Rightarrow> point" where
  "polyline p0 p1 p2 p3 n k = catmullRomPoint (real k / real n) p0 p1 p2 p3"

definition pdist :: "point \<Rightarrow> point \<Rightarrow> real" where
  "pdist a b = hypot (px a - px b) (py a - py b)"

section \<open>Properties of the curve interpolator\<close>

subsection \<open>The end points of a segment\<close>

text \<open>In exact arithmetic the curve starts at \<open>p1\<close> and ends at \<open>p2\<close>.\<close>

lemma catmullRomPoint_0: "catmullRomPoint 0 p0 p1 p2 p3 = p1"
  by (cases p1) (simp add: catmullRomPoint_def Let_def)

lemma catmullRomPoint_1: "catmullRomPoint 1 p0 p1 p2 p3 = p2"
  by (cases p2) (simp add: catmullRomPoint_def Let_def)

text \<open>Evaluating the operations on doubles given by numerals.\<close>

lemma bits_0: "bits 0 = 0"
  by (simp add: bits.simps)

lemma bits_1: "bits (Suc 0) = 1"
  by (simp add: bits.simps)

lemma bits_numeral: "bits (numeral n) = Suc (bits (numeral n div 2))"
  by (subst bits.simps) simp

lemmas double_eval = dsub_def to_double_def finite_double_def round_even_def Let_def
  bits_0 bits_1 bits_numeral

text \<open>A number with at most 53 digits and an exponent in range is rounded to itself.\<close>

lemma bits_less: "n < 2 ^ bits n"
proof (induction n rule: bits.induct)
  case (1 n)
  show ?case
  proof (cases "n = 0")
    case True
    then show ?thesis by simp
  next
    case False
    then have "n div 2 < 2 ^ bits (n div 2)"
      using 1 by simp
    then have "n < 2 * 2 ^ bits (n div 2)"
      by linarith
    then show ?thesis
      using False by (subst bits.simps) simp
  qed
qed

lemma bits_ge: "n \<noteq> 0 \<Longrightarrow> 2 ^ (bits n - 1) \<le> n"
proof (induction n rule: bits.induct)
  case (1 n)
  then have n: "n \<noteq> 0" by simp
  have unfold: "bits n = Suc (bits (n div 2))"
    using n by (subst bits.simps) simp
  show ?case
  proof (cases "n div 2 = 0")
    case True
    then show ?thesis
      using n by (simp add: unfold bits_0)
  next
    case False
    then have ih: "2 ^ (bits (n div 2) - 1) \<le> n div 2"
      using 1 n by simp
    have pos: "bits (n div 2) \<noteq> 0"
      using False by (subst bits.simps) simp
    then have "(2::nat) ^ bits (n div 2) = 2 * 2 ^ (bits (n div 2) - 1)"
      by (cases "bits (n div 2)") simp_all
    also have "\<dots> \<le> 2 * (n div 2)"
      using ih by simp
    also have "\<dots> \<le> n"
      by simp
    finally show ?thesis
      by (simp add: unfold)
  qed
qed

lemma bits_double: "n \<noteq> 0 \<Longrightarrow> bits (2 * n) = Suc (bits n)"
  by (subst bits.simps) simp

lemma bits_mult_pow: "n \<noteq> 0 \<Longrightarrow> bits (n * 2 ^ j) = bits n + j"
proof (induction j)
  case 0
  then show ?case by simp
next
  case (Suc j)
  have "bits (n * 2 ^ Suc j) = bits (2 * (n * 2 ^ j))"
    by (simp add: mult.commute mult.left_commute)
  also have "\<dots> = Suc (bits (n * 2 ^ j))"
    using Suc.prems by (intro bits_double) simp
  finally show ?case
    using Suc by simp
qed

lemma bits_le: "n < 2 ^ k \<Longrightarrow> bits n \<le> k"
proof (rule ccontr)
  assume n: "n < 2 ^ k" and nk: "\<not> bits n \<le> k"
  have "n \<noteq> 0"
  proof
    assume "n = 0"
    then have "bits n = 0" by (simp add: bits_0)
    with nk show False by simp
  qed
  from nk have k: "k \<le> bits n - 1"
    by simp
  then have "(2::nat) ^ k \<le> 2 ^ (bits n - 1)"
    by (intro power_increasing) simp_all
  also have "\<dots> \<le> n"
    using \<open>n \<noteq> 0\<close> by (rule bits_ge)
  finally show False
    using n by simp
qed

lemma nat_abs_mult_pow: "nat \<bar>m * 2 ^ j\<bar> = nat \<bar>m\<bar> * 2 ^ j"
  by (simp add: abs_mult nat_mult_distrib nat_power_eq)

lemma bits_mantissa:
  assumes "\<bar>m\<bar> < 2 ^ 53"
  shows "bits (nat \<bar>m * 2 ^ j\<bar>) \<le> 53 + j"
proof (cases "m = 0")
  case True
  then show ?thesis by (simp add: bits_0)
next
  case False
  have "nat \<bar>m\<bar> < 2 ^ 53"
    using assms by (simp add: nat_less_iff)
  then have "bits (nat \<bar>m\<bar>) \<le> 53"
    by (rule bits_le)
  moreover have "bits (nat \<bar>m * 2 ^ j\<bar>) = bits (nat \<bar>m\<bar>) + j"
    using False by (simp add: nat_abs_mult_pow bits_mult_pow)
  ultimately show ?thesis by simp
qed

lemma finite_double_mantissa:
  assumes "\<bar>m\<bar> < 2 ^ 53" and "s \<le> 971"
  shows "finite_double (m * 2 ^ j) (s - int j) = Fin (m * 2 ^ j) (s - int j)"
  using bits_mantissa[OF assms(1), of j] assms(2) by (simp add: finite_double_def)

lemma round_even_exact: "round_even (q * 2 ^ k) k = q"
  by (simp add: round_even_def)

lemma to_double_valued:
  assumes m: "\<bar>m\<bar> < 2 ^ 53" and lo: "- 1074 \<le> s" and hi: "s \<le> 971"
  shows "valued (to_double (m * 2 ^ j) (s - int j)) m s"
proof -
  define k where "k = max (int (bits (nat \<bar>m * 2 ^ j\<bar>)) - 53) (- 1074 - (s - int j))"
  have kj: "k \<le> int j"
    using bits_mantissa[OF m, of j] lo by (simp add: k_def)
  show ?thesis
  proof (cases "k \<le> 0")
    case True
    then have "to_double (m * 2 ^ j) (s - int j) = Fin (m * 2 ^ j) (s - int j)"
      by (simp add: to_double_def Let_def k_def[symmetric] finite_double_mantissa[OF m hi])
    then show ?thesis
      by (auto simp: valued_def)
  next
    case False
    define K where "K = nat k"
    have K: "K \<le> j" "int K = k"
      using False kj by (simp_all add: K_def)
    have split: "m * 2 ^ j = (m * 2 ^ (j - K)) * 2 ^ K"
      using K(1) by (simp add: power_add[symmetric])
    have re: "round_even (m * 2 ^ j) K = m * 2 ^ (j - K)"
      by (subst split) (rule round_even_exact)
    have ex: "s - int j + k = s - int (j - K)"
      using K by simp
    have "to_double (m * 2 ^ j) (s - int j) =
        finite_double (round_even (m * 2 ^ j) K) (s - int j + k)"
      using False by (simp add: to_double_def Let_def k_def[symmetric] K_def[symmetric])
    also have "\<dots> = finite_double (m * 2 ^ (j - K)) (s - int (j - K))"
      by (simp only: re ex)
    also have "\<dots> = Fin (m * 2 ^ (j - K)) (s - int (j - K))"
      by (rule finite_double_mantissa[OF m hi])
    finally show ?thesis
      by (auto simp: valued_def)
  qed
qed

text \<open>Rounding at most doubles the magnitude, so sums of moderate doubles stay finite.\<close>

lemma bits_powr:
  assumes "m \<noteq> 0"
  shows "2 powr (real (bits (nat \<bar>m\<bar>)) - 1) \<le> \<bar>real_of_int m\<bar>"
proof -
  let ?b = "bits (nat \<bar>m\<bar>)"
  have ne: "nat \<bar>m\<bar> \<noteq> 0"
    using assms by simp
  then have pos: "?b \<noteq> 0"
    by (subst bits.simps) simp
  have "2 ^ (?b - 1) \<le> nat \<bar>m\<bar>"
    using ne by (rule bits_ge)
  then have "real (2 ^ (?b - 1)) \<le> real (nat \<bar>m\<bar>)"
    by (rule of_nat_mono)
  then have "(2::real) ^ (?b - 1) \<le> \<bar>real_of_int m\<bar>"
    by simp
  moreover have "(2::real) powr (real ?b - 1) = 2 ^ (?b - 1)"
    using pos by (simp add: powr_realpow[symmetric] of_nat_diff)
  ultimately show ?thesis by simp
qed

lemma finite_double_below:
  assumes "dmag m e < 2 powr real_of_int n" and "n \<le> 1024"
  shows "finite_double m e = Fin m e"
proof (cases "m = 0")
  case True
  then show ?thesis by (simp add: finite_double_def)
next
  case False
  have "2 powr (real (bits (nat \<bar>m\<bar>)) - 1 + real_of_int e) =
      2 powr (real (bits (nat \<bar>m\<bar>)) - 1) * 2 powr real_of_int e"
    by (simp add: powr_add)
  also have "\<dots> \<le> dmag m e"
    unfolding dmag_def using bits_powr[OF False] by (intro mult_right_mono) simp_all
  also have "\<dots> < 2 powr real_of_int n"
    by (rule assms)
  finally have "real (bits (nat \<bar>m\<bar>)) - 1 + real_of_int e < real_of_int n"
    by simp
  then have "int (bits (nat \<bar>m\<bar>)) + e \<le> 1024"
    using assms(2) by linarith
  then show ?thesis
    by (simp add: finite_double_def)
qed

lemma round_even_near:
  "\<bar>real_of_int (round_even M K)\<bar> \<le> \<bar>real_of_int M\<bar> / 2 ^ K + 1"
proof -
  define q where "q = M div 2 ^ K"
  define x where "x = real_of_int M / 2 ^ K"
  have q: "q = \<lfloor>x\<rfloor>"
    unfolding q_def x_def using floor_divide_of_int_eq[of M "2 ^ K", where ?'a = real] by simp
  have lo: "real_of_int q \<le> x"
    unfolding q by (rule of_int_floor_le)
  have hi: "x < real_of_int q + 1"
    unfolding q by linarith
  have "round_even M K = q \<or> round_even M K = q + 1"
    by (simp add: round_even_def Let_def q_def)
  then have "\<bar>real_of_int (round_even M K)\<bar> \<le> \<bar>x\<bar> + 1"
  proof
    assume "round_even M K = q"
    then show ?thesis using lo hi by (simp; linarith)
  next
    assume "round_even M K = q + 1"
    then show ?thesis using lo hi by (simp; linarith)
  qed
  then show ?thesis
    by (simp add: x_def abs_divide)
qed

lemma to_double_below:
  assumes mag: "dmag M E < 2 powr real_of_int n" and lo: "- 1074 \<le> n" and hi: "n \<le> 1023"
  shows "below (to_double M E) (n + 1)"
proof -
  define k where "k = max (int (bits (nat \<bar>M\<bar>)) - 53) (- 1074 - E)"
  have up: "(2::real) powr real_of_int n \<le> 2 powr real_of_int (n + 1)"
    by simp
  show ?thesis
  proof (cases "k \<le> 0")
    case True
    have "to_double M E = finite_double M E"
      using True by (simp add: to_double_def Let_def k_def[symmetric])
    also have "\<dots> = Fin M E"
      using mag hi by (intro finite_double_below[of M E n]) simp_all
    finally show ?thesis
      using mag up by (auto simp: below_def intro: less_le_trans)
  next
    case False
    define K where "K = nat k"
    have K: "int K = k"
      using False by (simp add: K_def)
    define q where "q = round_even M K"
    have unit: "2 powr real_of_int (E + k) \<le> 2 powr real_of_int n"
    proof (cases "int (bits (nat \<bar>M\<bar>)) - 53 \<le> - 1074 - E")
      case True
      then have "E + k = - 1074"
        by (simp add: k_def)
      then show ?thesis
        using lo by simp
    next
      case False
      then have k: "k = int (bits (nat \<bar>M\<bar>)) - 53"
        by (simp add: k_def)
      have M: "M \<noteq> 0"
        using \<open>\<not> k \<le> 0\<close> k by (auto simp: bits_0)
      have "real_of_int (E + k) = (real (bits (nat \<bar>M\<bar>)) - 1) + real_of_int E + (- 52)"
        by (simp add: k)
      then have "2 powr real_of_int (E + k) =
          2 powr (real (bits (nat \<bar>M\<bar>)) - 1) * 2 powr real_of_int E * 2 powr (- 52)"
        by (simp only: powr_add)
      also have "\<dots> \<le> dmag M E * 2 powr (- 52)"
        unfolding dmag_def using bits_powr[OF M] by (intro mult_right_mono) simp_all
      also have "\<dots> \<le> dmag M E * 2 powr 0"
        by (intro mult_left_mono powr_mono) (simp_all add: dmag_def)
      finally have "2 powr real_of_int (E + k) \<le> dmag M E"
        by simp
      with mag show ?thesis
        by linarith
    qed
    have pw: "(2::real) ^ K = 2 powr real_of_int k"
      using K by (metis of_int_of_nat_eq powr_realpow zero_less_numeral)
    have "dmag q (E + k) = \<bar>real_of_int q\<bar> * (2 powr real_of_int k * 2 powr real_of_int E)"
      by (simp add: dmag_def powr_add)
    also have "\<dots> \<le> (\<bar>real_of_int M\<bar> / 2 ^ K + 1) * (2 powr real_of_int k * 2 powr real_of_int E)"
      unfolding q_def by (intro mult_right_mono round_even_near) simp
    also have "\<dots> = dmag M E + 2 powr real_of_int (E + k)"
      by (simp add: pw dmag_def powr_add field_simps)
    also have "\<dots> < 2 powr real_of_int n + 2 powr real_of_int n"
      using mag unit by linarith
    also have "\<dots> = 2 powr real_of_int (n + 1)"
      by (simp add: powr_add)
    finally have qmag: "dmag q (E + k) < 2 powr real_of_int (n + 1)" .
    have "to_double M E = finite_double q (E + k)"
      using False by (simp add: to_double_def Let_def k_def[symmetric] K_def[symmetric] q_def)
    also have "\<dots> = Fin q (E + k)"
      using qmag hi by (intro finite_double_below[of q "E + k" "n + 1"]) simp_all
    finally show ?thesis
      using qmag by (auto simp: below_def)
  qed
qed

lemma below_mono: "below d n \<Longrightarrow> n \<le> n' \<Longrightarrow> below d n'"
proof -
  assume b: "below d n" and le: "n \<le> n'"
  then obtain m e where d: "d = Fin m e" and mag: "dmag m e < 2 powr real_of_int n"
    by (auto simp: below_def)
  have "(2::real) powr real_of_int n \<le> 2 powr real_of_int n'"
    using le by simp
  with mag have "dmag m e < 2 powr real_of_int n'"
    by linarith
  with d show ?thesis
    by (auto simp: below_def)
qed

lemma below_dneg: "below d n \<Longrightarrow> below (dneg d) n"
  by (auto simp: below_def dmag_def)

lemma pow_powr:
  assumes "E \<le> e"
  shows "(2::real) ^ nat (e - E) * 2 powr real_of_int E = 2 powr real_of_int e"
proof -
  have "(2::real) ^ nat (e - E) = 2 powr real (nat (e - E))"
    by (simp add: powr_realpow)
  also have "real (nat (e - E)) = real_of_int e - real_of_int E"
    using assms by simp
  finally show ?thesis
    by (simp add: powr_add[symmetric])
qed

lemma below_dadd:
  assumes a: "below a n" and b: "below b n" and lo: "- 1075 \<le> n" and hi: "n \<le> 1022"
  shows "below (dadd a b) (n + 2)"
proof -
  from a obtain m1 e1 where a': "a = Fin m1 e1" and m1: "dmag m1 e1 < 2 powr real_of_int n"
    by (auto simp: below_def)
  from b obtain m2 e2 where b': "b = Fin m2 e2" and m2: "dmag m2 e2 < 2 powr real_of_int n"
    by (auto simp: below_def)
  define E where "E = min e1 e2"
  define M where "M = m1 * 2 ^ nat (e1 - E) + m2 * 2 ^ nat (e2 - E)"
  have "real_of_int M * 2 powr real_of_int E =
      real_of_int m1 * (2 ^ nat (e1 - E) * 2 powr real_of_int E)
      + real_of_int m2 * (2 ^ nat (e2 - E) * 2 powr real_of_int E)"
    by (simp add: M_def algebra_simps)
  also have "\<dots> = real_of_int m1 * 2 powr real_of_int e1 + real_of_int m2 * 2 powr real_of_int e2"
    by (simp add: pow_powr E_def)
  finally have eq: "real_of_int M * 2 powr real_of_int E =
      real_of_int m1 * 2 powr real_of_int e1 + real_of_int m2 * 2 powr real_of_int e2" .
  have "dmag M E = \<bar>real_of_int M * 2 powr real_of_int E\<bar>"
    by (simp add: dmag_def abs_mult)
  also have "\<dots> = \<bar>real_of_int m1 * 2 powr real_of_int e1 + real_of_int m2 * 2 powr real_of_int e2\<bar>"
    by (simp only: eq)
  also have "\<dots> \<le> \<bar>real_of_int m1 * 2 powr real_of_int e1\<bar> + \<bar>real_of_int m2 * 2 powr real_of_int e2\<bar>"
    by (rule abs_triangle_ineq)
  also have "\<dots> = dmag m1 e1 + dmag m2 e2"
    by (simp add: dmag_def abs_mult)
  also have "\<dots> < 2 powr real_of_int n + 2 powr real_of_int n"
    using m1 m2 by linarith
  also have "\<dots> = 2 powr real_of_int (n + 1)"
    by (simp add: powr_add)
  finally have "below (to_double M E) (n + 1 + 1)"
    using lo hi by (intro to_double_below) simp_all
  then show ?thesis
    by (simp add: a' b' Let_def E_def M_def add.commute)
qed

lemma below_dsub:
  assumes "below a n" and "below b n" and "- 1075 \<le> n" and "n \<le> 1022"
  shows "below (dsub a b) (n + 2)"
  unfolding dsub_def using assms by (intro below_dadd below_dneg)

lemma below_dmul_const:
  assumes a: "below a n" and c: "\<bar>c\<bar> \<le> 8" and lo: "- 1077 \<le> n" and hi: "n \<le> 1020"
  shows "below (dmul (Fin c 0) a) (n + 4)"
proof -
  from a obtain m e where a': "a = Fin m e" and m: "dmag m e < 2 powr real_of_int n"
    by (auto simp: below_def)
  have "dmag (c * m) e = \<bar>real_of_int c\<bar> * dmag m e"
    by (simp add: dmag_def abs_mult)
  also have "\<dots> \<le> 8 * dmag m e"
    using c by (intro mult_right_mono) (simp_all add: dmag_def)
  also have "\<dots> < 8 * 2 powr real_of_int n"
    using m by simp
  also have "\<dots> = 2 powr real_of_int (n + 3)"
    by (simp add: powr_add)
  finally have "below (to_double (c * m) e) (n + 3 + 1)"
    using lo hi by (intro to_double_below) simp_all
  then show ?thesis
    by (simp add: a' add.commute)
qed

lemma moderate_below: "moderate d \<Longrightarrow> below d 993"
proof (cases d)
  case (Fin m e)
  assume "moderate d"
  with Fin have m: "\<bar>m\<bar> < 2 ^ 53" and e: "e \<le> 940"
    by simp_all
  have "\<bar>real_of_int m\<bar> < 2 ^ 53"
    using m by (metis of_int_abs of_int_less_numeral_power_cancel_iff)
  then have "dmag m e < 2 ^ 53 * 2 powr real_of_int e"
    by (simp add: dmag_def)
  also have "\<dots> = 2 powr (53 + real_of_int e)"
    by (simp add: powr_add)
  also have "\<dots> \<le> 2 powr real_of_int 993"
    using e by (intro powr_mono) simp_all
  finally show ?thesis
    using Fin by (auto simp: below_def)
next
  case NonFinite
  assume "moderate d"
  with NonFinite show ?thesis by simp
qed

lemma to_double_zero: "is_zero (to_double 0 E)"
  by (simp add: to_double_def Let_def finite_double_def round_even_def bits_0 is_zero_def)

lemma dmul_zero:
  assumes "below a n" and "is_zero z"
  shows "is_zero (dmul a z)"
  using assms to_double_zero by (auto simp: below_def is_zero_def)

lemma dmul_zero_zero:
  assumes "is_zero a" and "is_zero z"
  shows "is_zero (dmul a z)"
  using assms to_double_zero by (auto simp: is_zero_def)

lemma valued_two:
  assumes "valued d m s" and "\<bar>m\<bar> < 2 ^ 53" and "- 1075 \<le> s" and "s \<le> 970"
  shows "valued (dmul (Fin 2 0) d) m (s + 1)"
proof -
  from assms(1) obtain j where d: "d = Fin (m * 2 ^ j) (s - int j)"
    by (auto simp: valued_def)
  have "dmul (Fin 2 0) d = to_double (m * 2 ^ Suc j) (s + 1 - int (Suc j))"
    by (simp add: d mult.commute mult.left_commute)
  then show ?thesis
    using to_double_valued[of m "s + 1" "Suc j"] assms(2-4) by simp
qed

lemma valued_half:
  assumes "valued d m s" and "\<bar>m\<bar> < 2 ^ 53" and "- 1073 \<le> s" and "s \<le> 972"
  shows "valued (dmul (Fin 1 (- 1)) d) m (s - 1)"
proof -
  from assms(1) obtain j where d: "d = Fin (m * 2 ^ j) (s - int j)"
    by (auto simp: valued_def)
  have e: "- 1 + (s - int j) = s - 1 - int j"
    by simp
  have "dmul (Fin 1 (- 1)) d = to_double (1 * (m * 2 ^ j)) (- 1 + (s - int j))"
    unfolding d by (simp only: dmul.simps)
  also have "\<dots> = to_double (m * 2 ^ j) (s - 1 - int j)"
    by (simp only: e mult_1)
  finally have eq: "dmul (Fin 1 (- 1)) d = to_double (m * 2 ^ j) (s - 1 - int j)" .
  have "valued (to_double (m * 2 ^ j) (s - 1 - int j)) m (s - 1)"
    by (rule to_double_valued) (use assms(2-4) in simp_all)
  then show ?thesis
    by (simp only: eq)
qed

lemma valued_add_zero:
  assumes "valued d m s" and "is_zero z" and "\<bar>m\<bar> < 2 ^ 53" and "- 1074 \<le> s" and "s \<le> 971"
  shows "valued (dadd d z) m s"
proof -
  from assms(1) obtain j where d: "d = Fin (m * 2 ^ j) (s - int j)"
    by (auto simp: valued_def)
  from assms(2) obtain ez where z: "z = Fin 0 ez"
    by (auto simp: is_zero_def)
  define i where "i = nat (s - int j - min (s - int j) ez)"
  have e: "min (s - int j) ez = s - int (j + i)"
    by (simp add: i_def)
  have "dadd d z = to_double (m * 2 ^ j * 2 ^ i) (min (s - int j) ez)"
    by (simp add: d z Let_def i_def)
  also have "\<dots> = to_double (m * 2 ^ (j + i)) (s - int (j + i))"
    by (simp only: e power_add mult.assoc)
  finally show ?thesis
    using to_double_valued[of m s "j + i"] assms(3-5) by simp
qed

lemma valued_deq: "valued d m s \<Longrightarrow> deq d (Fin m s)"
  by (auto simp: valued_def Let_def)

lemma coordinate_at_zero:
  assumes a: "moderate a" and u: "is_zero u" and v: "is_zero v" and w: "is_zero w"
  shows "deq (dmul (Fin 1 (- 1)) (dadd (dadd (dadd (dmul (Fin 2 0) a) u) v) w)) a"
proof -
  from a obtain m e where a': "a = Fin m e" and m: "\<bar>m\<bar> < 2 ^ 53"
    and e: "- 1074 \<le> e" "e \<le> 940"
    by (cases a) simp_all
  have v0: "valued a m e"
    unfolding valued_def a' by (rule exI[of _ 0]) simp
  have v1: "valued (dmul (Fin 2 0) a) m (e + 1)"
    by (rule valued_two[OF v0 m]) (use e in simp_all)
  have v2: "valued (dadd (dmul (Fin 2 0) a) u) m (e + 1)"
    by (rule valued_add_zero[OF v1 u m]) (use e in simp_all)
  have v3: "valued (dadd (dadd (dmul (Fin 2 0) a) u) v) m (e + 1)"
    by (rule valued_add_zero[OF v2 v m]) (use e in simp_all)
  have v4: "valued (dadd (dadd (dadd (dmul (Fin 2 0) a) u) v) w) m (e + 1)"
    by (rule valued_add_zero[OF v3 w m]) (use e in simp_all)
  have "valued (dmul (Fin 1 (- 1)) (dadd (dadd (dadd (dmul (Fin 2 0) a) u) v) w)) m (e + 1 - 1)"
    by (rule valued_half[OF v4 m]) (use e in simp_all)
  then show ?thesis
    using valued_deq[of _ m e] by (simp add: a')
qed

lemma coefficients_finite:
  assumes "moderate a0" "moderate a1" "moderate a2" "moderate a3"
  shows "below (dadd (dneg a0) a2) 1010"
    and "below (dsub (dadd (dsub (dmul (Fin 2 0) a0) (dmul (Fin 5 0) a1)) (dmul (Fin 4 0) a2)) a3) 1010"
    and "below (dadd (dsub (dadd (dneg a0) (dmul (Fin 3 0) a1)) (dmul (Fin 3 0) a2)) a3) 1010"
proof -
  note b = assms[THEN moderate_below]
  have b997: "below a0 997" "below a1 997" "below a2 997" "below a3 997"
    using b by (auto intro: below_mono)
  have c: "below (dmul (Fin 2 0) a0) 997" "below (dmul (Fin 5 0) a1) 997"
    "below (dmul (Fin 4 0) a2) 997" "below (dmul (Fin 3 0) a1) 997" "below (dmul (Fin 3 0) a2) 997"
    using below_dmul_const[OF b(1), of 2] below_dmul_const[OF b(2), of 5]
      below_dmul_const[OF b(3), of 4] below_dmul_const[OF b(2), of 3]
      below_dmul_const[OF b(3), of 3] by simp_all
  have "below (dadd (dneg a0) a2) (993 + 2)"
    using b by (intro below_dadd below_dneg) simp_all
  then show "below (dadd (dneg a0) a2) 1010"
    by (rule below_mono) simp
  have s1: "below (dsub (dmul (Fin 2 0) a0) (dmul (Fin 5 0) a1)) (997 + 2)"
    using c by (intro below_dsub) simp_all
  have s2: "below (dadd (dsub (dmul (Fin 2 0) a0) (dmul (Fin 5 0) a1)) (dmul (Fin 4 0) a2)) (999 + 2)"
    using s1 c(3) by (intro below_dadd) (auto intro: below_mono)
  have s3: "below (dsub (dadd (dsub (dmul (Fin 2 0) a0) (dmul (Fin 5 0) a1)) (dmul (Fin 4 0) a2)) a3) (1001 + 2)"
    using s2 b(4) by (intro below_dsub) (auto intro: below_mono)
  then show "below (dsub (dadd (dsub (dmul (Fin 2 0) a0) (dmul (Fin 5 0) a1)) (dmul (Fin 4 0) a2)) a3) 1010"
    by (rule below_mono) simp
  have r1: "below (dadd (dneg a0) (dmul (Fin 3 0) a1)) (997 + 2)"
    using b997(1) c(4) by (intro below_dadd below_dneg) simp_all
  have r2: "below (dsub (dadd (dneg a0) (dmul (Fin 3 0) a1)) (dmul (Fin 3 0) a2)) (999 + 2)"
    using r1 c(5) by (intro below_dsub) (auto intro: below_mono)
  have r3: "below (dadd (dsub (dadd (dneg a0) (dmul (Fin 3 0) a1)) (dmul (Fin 3 0) a2)) a3) (1001 + 2)"
    using r2 b(4) by (intro below_dadd) (auto intro: below_mono)
  then show "below (dadd (dsub (dadd (dneg a0) (dmul (Fin 3 0) a1)) (dmul (Fin 3 0) a2)) a3) 1010"
    by (rule below_mono) simp
qed

lemma catmullRomPoint_d_at_zero:
  assumes "moderate (dx p0)" "moderate (dx p1)" "moderate (dx p2)" "moderate (dx p3)"
    and "moderate (dy p0)" "moderate (dy p1)" "moderate (dy p2)" "moderate (dy p3)"
  shows "deq (dx (catmullRomPoint_d (Fin 0 0) p0 p1 p2 p3)) (dx p1)"
    and "deq (dy (catmullRomPoint_d (Fin 0 0) p0 p1 p2 p3)) (dy p1)"
proof -
  have t: "is_zero (Fin 0 0)"
    by (simp add: is_zero_def)
  have t2: "is_zero (dmul (Fin 0 0) (Fin 0 0))"
    using t by (intro dmul_zero_zero)
  have t3: "is_zero (dmul (dmul (Fin 0 0) (Fin 0 0)) (Fin 0 0))"
    using t t2 by (intro dmul_zero_zero)
  note cx = coefficients_finite[OF assms(1-4)]
  note cy = coefficients_finite[OF assms(5-8)]
  show "deq (dx (catmullRomPoint_d (Fin 0 0) p0 p1 p2 p3)) (dx p1)"
    unfolding catmullRomPoint_d_def Let_def dpoint.sel
    by (intro coordinate_at_zero assms(2) dmul_zero[OF cx(1) t] dmul_zero[OF cx(2) t2]
        dmul_zero[OF cx(3) t3])
  show "deq (dy (catmullRomPoint_d (Fin 0 0) p0 p1 p2 p3)) (dy p1)"
    unfolding catmullRomPoint_d_def Let_def dpoint.sel
    by (intro coordinate_at_zero assms(6) dmul_zero[OF cy(1) t] dmul_zero[OF cy(2) t2]
        dmul_zero[OF cy(3) t3])
qed

text \<open>
  The same without a bound on the magnitudes: a coordinate of the result at \<open>t = 0\<close> that is
  finite is the coordinate of \<open>p1\<close>. Every intermediate result is finite then, each of the
  three products with \<open>t\<close>, \<open>t2\<close>, \<open>t3\<close> is zero, and doubling and halving are exact.
\<close>

lemma finite_double_cases: "finite_double m e = NonFinite \<or> finite_double m e = Fin m e"
  by (simp add: finite_double_def)

lemma to_double_valued_finite:
  assumes m: "\<bar>m\<bar> < 2 ^ 53" and lo: "- 1074 \<le> s"
    and fin: "to_double (m * 2 ^ j) (s - int j) \<noteq> NonFinite"
  shows "valued (to_double (m * 2 ^ j) (s - int j)) m s"
proof -
  define k where "k = max (int (bits (nat \<bar>m * 2 ^ j\<bar>)) - 53) (- 1074 - (s - int j))"
  have kj: "k \<le> int j"
    using bits_mantissa[OF m, of j] lo by (simp add: k_def)
  show ?thesis
  proof (cases "k \<le> 0")
    case True
    then have eq: "to_double (m * 2 ^ j) (s - int j) = finite_double (m * 2 ^ j) (s - int j)"
      by (simp add: to_double_def Let_def k_def[symmetric])
    with fin finite_double_cases[of "m * 2 ^ j" "s - int j"]
    have "to_double (m * 2 ^ j) (s - int j) = Fin (m * 2 ^ j) (s - int j)"
      by simp
    then show ?thesis
      by (auto simp: valued_def)
  next
    case False
    define K where "K = nat k"
    have K: "K \<le> j" "int K = k"
      using False kj by (simp_all add: K_def)
    have split: "m * 2 ^ j = (m * 2 ^ (j - K)) * 2 ^ K"
      using K(1) by (simp add: power_add[symmetric])
    have re: "round_even (m * 2 ^ j) K = m * 2 ^ (j - K)"
      by (subst split) (rule round_even_exact)
    have ex: "s - int j + k = s - int (j - K)"
      using K by simp
    have "to_double (m * 2 ^ j) (s - int j) =
        finite_double (round_even (m * 2 ^ j) K) (s - int j + k)"
      using False by (simp add: to_double_def Let_def k_def[symmetric] K_def[symmetric])
    also have "\<dots> = finite_double (m * 2 ^ (j - K)) (s - int (j - K))"
      by (simp only: re ex)
    finally have eq: "to_double (m * 2 ^ j) (s - int j) =
        finite_double (m * 2 ^ (j - K)) (s - int (j - K))" .
    with fin finite_double_cases[of "m * 2 ^ (j - K)" "s - int (j - K)"]
    have "to_double (m * 2 ^ j) (s - int j) = Fin (m * 2 ^ (j - K)) (s - int (j - K))"
      by simp
    then show ?thesis
      by (auto simp: valued_def)
  qed
qed

lemma dadd_finite: "dadd a b \<noteq> NonFinite \<Longrightarrow> a \<noteq> NonFinite \<and> b \<noteq> NonFinite"
  by (cases a; cases b) simp_all

lemma dmul_finite: "dmul a b \<noteq> NonFinite \<Longrightarrow> a \<noteq> NonFinite \<and> b \<noteq> NonFinite"
  by (cases a; cases b) simp_all

lemma dmul_zero_finite:
  assumes "dmul a z \<noteq> NonFinite" and "is_zero z"
  shows "is_zero (dmul a z)"
proof -
  from dmul_finite[OF assms(1)] obtain m e where "a = Fin m e"
    by (cases a) simp_all
  with assms(2) to_double_zero show ?thesis
    by (auto simp: is_zero_def)
qed

lemma valued_two_finite:
  assumes "valued d m s" and "\<bar>m\<bar> < 2 ^ 53" and "- 1075 \<le> s"
    and "dmul (Fin 2 0) d \<noteq> NonFinite"
  shows "valued (dmul (Fin 2 0) d) m (s + 1)"
proof -
  from assms(1) obtain j where d: "d = Fin (m * 2 ^ j) (s - int j)"
    by (auto simp: valued_def)
  have eq: "dmul (Fin 2 0) d = to_double (m * 2 ^ Suc j) (s + 1 - int (Suc j))"
    by (simp add: d mult.commute mult.left_commute)
  have "valued (to_double (m * 2 ^ Suc j) (s + 1 - int (Suc j))) m (s + 1)"
    by (rule to_double_valued_finite) (use assms(2-4) eq in simp_all)
  then show ?thesis
    by (simp only: eq)
qed

lemma valued_half_finite:
  assumes "valued d m s" and "\<bar>m\<bar> < 2 ^ 53" and "- 1073 \<le> s"
    and "dmul (Fin 1 (- 1)) d \<noteq> NonFinite"
  shows "valued (dmul (Fin 1 (- 1)) d) m (s - 1)"
proof -
  from assms(1) obtain j where d: "d = Fin (m * 2 ^ j) (s - int j)"
    by (auto simp: valued_def)
  have e: "- 1 + (s - int j) = s - 1 - int j"
    by simp
  have "dmul (Fin 1 (- 1)) d = to_double (1 * (m * 2 ^ j)) (- 1 + (s - int j))"
    unfolding d by (simp only: dmul.simps)
  also have "\<dots> = to_double (m * 2 ^ j) (s - 1 - int j)"
    by (simp only: e mult_1)
  finally have eq: "dmul (Fin 1 (- 1)) d = to_double (m * 2 ^ j) (s - 1 - int j)" .
  have "valued (to_double (m * 2 ^ j) (s - 1 - int j)) m (s - 1)"
    by (rule to_double_valued_finite) (use assms(2-4) eq in simp_all)
  then show ?thesis
    by (simp only: eq)
qed

lemma valued_add_zero_finite:
  assumes "valued d m s" and "is_zero z" and "\<bar>m\<bar> < 2 ^ 53" and "- 1074 \<le> s"
    and "dadd d z \<noteq> NonFinite"
  shows "valued (dadd d z) m s"
proof -
  from assms(1) obtain j where d: "d = Fin (m * 2 ^ j) (s - int j)"
    by (auto simp: valued_def)
  from assms(2) obtain ez where z: "z = Fin 0 ez"
    by (auto simp: is_zero_def)
  define i where "i = nat (s - int j - min (s - int j) ez)"
  have e: "min (s - int j) ez = s - int (j + i)"
    by (simp add: i_def)
  have "dadd d z = to_double (m * 2 ^ j * 2 ^ i) (min (s - int j) ez)"
    by (simp add: d z Let_def i_def)
  also have "\<dots> = to_double (m * 2 ^ (j + i)) (s - int (j + i))"
    by (simp only: e power_add mult.assoc)
  finally have eq: "dadd d z = to_double (m * 2 ^ (j + i)) (s - int (j + i))" .
  have "valued (to_double (m * 2 ^ (j + i)) (s - int (j + i))) m s"
    by (rule to_double_valued_finite) (use assms(3-5) eq in simp_all)
  then show ?thesis
    by (simp only: eq)
qed

lemma coordinate_at_zero_finite:
  assumes a: "is_double a" and t1: "is_zero t1" and t2: "is_zero t2" and t3: "is_zero t3"
    and fin: "dmul (Fin 1 (- 1)) (dadd (dadd (dadd (dmul (Fin 2 0) a) (dmul c1 t1)) (dmul c2 t2))
                (dmul c3 t3)) \<noteq> NonFinite"
  shows "deq (dmul (Fin 1 (- 1)) (dadd (dadd (dadd (dmul (Fin 2 0) a) (dmul c1 t1)) (dmul c2 t2))
                (dmul c3 t3))) a"
proof -
  from a obtain m e where a': "a = Fin m e" and m: "\<bar>m\<bar> < 2 ^ 53" and e: "- 1074 \<le> e"
    by (cases a) simp_all
  let ?A = "dmul (Fin 2 0) a"
  let ?S1 = "dadd ?A (dmul c1 t1)"
  let ?S2 = "dadd ?S1 (dmul c2 t2)"
  let ?S3 = "dadd ?S2 (dmul c3 t3)"
  have f3: "?S3 \<noteq> NonFinite"
    using dmul_finite[OF fin] by simp
  have f2: "?S2 \<noteq> NonFinite" and fd: "dmul c3 t3 \<noteq> NonFinite"
    using dadd_finite[OF f3] by simp_all
  have f1: "?S1 \<noteq> NonFinite" and fc: "dmul c2 t2 \<noteq> NonFinite"
    using dadd_finite[OF f2] by simp_all
  have fa: "?A \<noteq> NonFinite" and fb: "dmul c1 t1 \<noteq> NonFinite"
    using dadd_finite[OF f1] by simp_all
  note z1 = dmul_zero_finite[OF fb t1]
  note z2 = dmul_zero_finite[OF fc t2]
  note z3 = dmul_zero_finite[OF fd t3]
  have v0: "valued a m e"
    unfolding valued_def a' by (rule exI[of _ 0]) simp
  have v1: "valued ?A m (e + 1)"
    by (rule valued_two_finite[OF v0 m _ fa]) (use e in simp)
  have v2: "valued ?S1 m (e + 1)"
    by (rule valued_add_zero_finite[OF v1 z1 m _ f1]) (use e in simp)
  have v3: "valued ?S2 m (e + 1)"
    by (rule valued_add_zero_finite[OF v2 z2 m _ f2]) (use e in simp)
  have v4: "valued ?S3 m (e + 1)"
    by (rule valued_add_zero_finite[OF v3 z3 m _ f3]) (use e in simp)
  have "valued (dmul (Fin 1 (- 1)) ?S3) m (e + 1 - 1)"
    by (rule valued_half_finite[OF v4 m _ fin]) (use e in simp)
  then show ?thesis
    using valued_deq[of _ m e] by (simp add: a')
qed

lemma catmullRomPoint_d_at_zero_finite:
  shows "is_double (dx p1) \<Longrightarrow> dx (catmullRomPoint_d (Fin 0 0) p0 p1 p2 p3) \<noteq> NonFinite \<Longrightarrow>
         deq (dx (catmullRomPoint_d (Fin 0 0) p0 p1 p2 p3)) (dx p1)"
    and "is_double (dy p1) \<Longrightarrow> dy (catmullRomPoint_d (Fin 0 0) p0 p1 p2 p3) \<noteq> NonFinite \<Longrightarrow>
         deq (dy (catmullRomPoint_d (Fin 0 0) p0 p1 p2 p3)) (dy p1)"
proof -
  have t: "is_zero (Fin 0 0)"
    by (simp add: is_zero_def)
  have t2: "is_zero (dmul (Fin 0 0) (Fin 0 0))"
    using t by (intro dmul_zero_zero)
  have t3: "is_zero (dmul (dmul (Fin 0 0) (Fin 0 0)) (Fin 0 0))"
    using t t2 by (intro dmul_zero_zero)
  show "is_double (dx p1) \<Longrightarrow> dx (catmullRomPoint_d (Fin 0 0) p0 p1 p2 p3) \<noteq> NonFinite \<Longrightarrow>
         deq (dx (catmullRomPoint_d (Fin 0 0) p0 p1 p2 p3)) (dx p1)"
    unfolding catmullRomPoint_d_def Let_def dpoint.sel
    by (rule coordinate_at_zero_finite[OF _ t t2 t3])
  show "is_double (dy p1) \<Longrightarrow> dy (catmullRomPoint_d (Fin 0 0) p0 p1 p2 p3) \<noteq> NonFinite \<Longrightarrow>
         deq (dy (catmullRomPoint_d (Fin 0 0) p0 p1 p2 p3)) (dy p1)"
    unfolding catmullRomPoint_d_def Let_def dpoint.sel
    by (rule coordinate_at_zero_finite[OF _ t t2 t3])
qed

text \<open>
  C7, as stated, fails in the arithmetic of the code. At \<open>t = 1\<close> the four terms are added
  one by one and each sum is rounded: for the control points with both coordinates 0.1,
  0.2, 0.3, 0.4 (the doubles \<open>7205759403792794 * 2 ^ (- 56)\<close>, \<open>7205759403792794 * 2 ^ (- 55)\<close>,
  \<open>5404319552844595 * 2 ^ (- 54)\<close>, \<open>7205759403792794 * 2 ^ (- 54)\<close>) the code returns
  \<open>5404319552844596 * 2 ^ (- 54)\<close>, that is 0.30000000000000004, not \<open>p2\<close>. At \<open>t = 0\<close> a
  coefficient can overflow, and infinity times 0 is NaN: for four control points with both
  coordinates \<open>2 ^ 1022\<close> (the double \<open>2251799813685248 * 2 ^ 971\<close>) the product \<open>5 * p1\<close> is
  infinite and the code returns NaN, not \<open>p1\<close>.
\<close>

theorem catmullRomPoint_d_not_exact:
  "catmullRomPoint_d (Fin 1 0)
     (DPoint (Fin 7205759403792794 (- 56)) (Fin 7205759403792794 (- 56)))
     (DPoint (Fin 7205759403792794 (- 55)) (Fin 7205759403792794 (- 55)))
     (DPoint (Fin 5404319552844595 (- 54)) (Fin 5404319552844595 (- 54)))
     (DPoint (Fin 7205759403792794 (- 54)) (Fin 7205759403792794 (- 54))) =
   DPoint (Fin 5404319552844596 (- 54)) (Fin 5404319552844596 (- 54))
   \<and> \<not> deq (dx (catmullRomPoint_d (Fin 1 0)
     (DPoint (Fin 7205759403792794 (- 56)) (Fin 7205759403792794 (- 56)))
     (DPoint (Fin 7205759403792794 (- 55)) (Fin 7205759403792794 (- 55)))
     (DPoint (Fin 5404319552844595 (- 54)) (Fin 5404319552844595 (- 54)))
     (DPoint (Fin 7205759403792794 (- 54)) (Fin 7205759403792794 (- 54)))))
          (Fin 5404319552844595 (- 54))
   \<and> is_double (Fin 2251799813685248 971)
   \<and> catmullRomPoint_d (Fin 0 0)
     (DPoint (Fin 2251799813685248 971) (Fin 2251799813685248 971))
     (DPoint (Fin 2251799813685248 971) (Fin 2251799813685248 971))
     (DPoint (Fin 2251799813685248 971) (Fin 2251799813685248 971))
     (DPoint (Fin 2251799813685248 971) (Fin 2251799813685248 971)) =
     DPoint NonFinite NonFinite"
  by (simp add: catmullRomPoint_d_def double_eval)

text \<open>
  C7, amended: for all control points with double coordinates, a coordinate of the curve
  evaluated by the code at \<open>t = 0\<close> that is a finite number is the coordinate of \<open>p1\<close>
  exactly; both coordinates are finite, and so those of \<open>p1\<close>, when all coordinates of the
  four control points have a magnitude below \<open>2 ^ 993\<close>. In exact arithmetic, for all
  control points, the curve at \<open>t = 0\<close> is \<open>p1\<close> and the curve at \<open>t = 1\<close> is \<open>p2\<close>.
\<close>

theorem catmullRomPoint_endpoints:
  "(is_double (dx p1) \<and> dx (catmullRomPoint_d (Fin 0 0) p0 p1 p2 p3) \<noteq> NonFinite \<longrightarrow>
      deq (dx (catmullRomPoint_d (Fin 0 0) p0 p1 p2 p3)) (dx p1))
   \<and> (is_double (dy p1) \<and> dy (catmullRomPoint_d (Fin 0 0) p0 p1 p2 p3) \<noteq> NonFinite \<longrightarrow>
      deq (dy (catmullRomPoint_d (Fin 0 0) p0 p1 p2 p3)) (dy p1))
   \<and> (moderate (dx p0) \<and> moderate (dx p1) \<and> moderate (dx p2) \<and> moderate (dx p3)
      \<and> moderate (dy p0) \<and> moderate (dy p1) \<and> moderate (dy p2) \<and> moderate (dy p3) \<longrightarrow>
      deq (dx (catmullRomPoint_d (Fin 0 0) p0 p1 p2 p3)) (dx p1)
      \<and> deq (dy (catmullRomPoint_d (Fin 0 0) p0 p1 p2 p3)) (dy p1))
   \<and> catmullRomPoint 0 q0 q1 q2 q3 = q1
   \<and> catmullRomPoint 1 q0 q1 q2 q3 = q2"
  using catmullRomPoint_d_at_zero_finite[of p1 p0 p2 p3] catmullRomPoint_d_at_zero[of p0 p1 p2 p3]
  by (simp add: catmullRomPoint_0 catmullRomPoint_1)

theorem catmullRomPoint_endpoints_witness:
  "is_double (Fin 7205759403792794 (- 55))
   \<and> moderate (Fin 7205759403792794 (- 56)) \<and> moderate (Fin 7205759403792794 (- 55))
   \<and> moderate (Fin 5404319552844595 (- 54)) \<and> moderate (Fin 7205759403792794 (- 54))
   \<and> catmullRomPoint_d (Fin 0 0)
     (DPoint (Fin 7205759403792794 (- 56)) (Fin 7205759403792794 (- 56)))
     (DPoint (Fin 7205759403792794 (- 55)) (Fin 7205759403792794 (- 55)))
     (DPoint (Fin 5404319552844595 (- 54)) (Fin 5404319552844595 (- 54)))
     (DPoint (Fin 7205759403792794 (- 54)) (Fin 7205759403792794 (- 54))) =
       DPoint (Fin 7205759403792794 (- 55)) (Fin 7205759403792794 (- 55))
   \<and> dx (catmullRomPoint_d (Fin 0 0)
     (DPoint (Fin 7205759403792794 (- 56)) (Fin 7205759403792794 (- 56)))
     (DPoint (Fin 7205759403792794 (- 55)) (Fin 7205759403792794 (- 55)))
     (DPoint (Fin 5404319552844595 (- 54)) (Fin 5404319552844595 (- 54)))
     (DPoint (Fin 7205759403792794 (- 54)) (Fin 7205759403792794 (- 54)))) \<noteq> NonFinite
   \<and> deq (dx (catmullRomPoint_d (Fin 0 0)
     (DPoint (Fin 7205759403792794 (- 56)) (Fin 7205759403792794 (- 56)))
     (DPoint (Fin 7205759403792794 (- 55)) (Fin 7205759403792794 (- 55)))
     (DPoint (Fin 5404319552844595 (- 54)) (Fin 5404319552844595 (- 54)))
     (DPoint (Fin 7205759403792794 (- 54)) (Fin 7205759403792794 (- 54)))))
         (Fin 7205759403792794 (- 55))
   \<and> catmullRomPoint 0 (Point 1 2) (Point 3 4) (Point 5 6) (Point 7 8) = Point 3 4
   \<and> catmullRomPoint 1 (Point 1 2) (Point 3 4) (Point 5 6) (Point 7 8) = Point 5 6"
proof -
  have m: "is_double (Fin 7205759403792794 (- 55))"
    "moderate (Fin 7205759403792794 (- 56))" "moderate (Fin 7205759403792794 (- 55))"
    "moderate (Fin 5404319552844595 (- 54))" "moderate (Fin 7205759403792794 (- 54))"
    by simp_all
  have v: "catmullRomPoint_d (Fin 0 0)
     (DPoint (Fin 7205759403792794 (- 56)) (Fin 7205759403792794 (- 56)))
     (DPoint (Fin 7205759403792794 (- 55)) (Fin 7205759403792794 (- 55)))
     (DPoint (Fin 5404319552844595 (- 54)) (Fin 5404319552844595 (- 54)))
     (DPoint (Fin 7205759403792794 (- 54)) (Fin 7205759403792794 (- 54))) =
       DPoint (Fin 7205759403792794 (- 55)) (Fin 7205759403792794 (- 55))"
    by (simp add: catmullRomPoint_d_def double_eval)
  show ?thesis
    using m v catmullRomPoint_endpoints
      [of "DPoint (Fin 7205759403792794 (- 55)) (Fin 7205759403792794 (- 55))"
          "DPoint (Fin 7205759403792794 (- 56)) (Fin 7205759403792794 (- 56))"
          "DPoint (Fin 5404319552844595 (- 54)) (Fin 5404319552844595 (- 54))"
          "DPoint (Fin 7205759403792794 (- 54)) (Fin 7205759403792794 (- 54))"
          "Point 1 2" "Point 3 4" "Point 5 6" "Point 7 8"]
    by simp
qed

subsection \<open>Doubled end points\<close>

lemma catmullRomPoint_ease:
  "catmullRomPoint t p p q q =
     Point (px p + ease t * (px q - px p)) (py p + ease t * (py q - py p))"
  by (simp add: catmullRomPoint_def Let_def ease_def field_simps)

lemma ease_range:
  assumes "0 \<le> t" and "t \<le> 1"
  shows "0 \<le> ease t \<and> ease t \<le> 1"
proof -
  have low: "ease t = t * (1 + t * (3 - 2 * t)) / 2"
    by (simp add: ease_def field_simps)
  have high: "1 - ease t = (1 - t) * (2 + t - 2 * (t * t)) / 2"
    by (simp add: ease_def field_simps)
  have "0 \<le> t * (3 - 2 * t)"
    using assms by simp
  then have "0 \<le> t * (1 + t * (3 - 2 * t))"
    using assms by simp
  then have ge: "0 \<le> ease t"
    unfolding low by simp
  have "t * t \<le> 1"
    using assms by (simp add: mult_le_one)
  then have "0 \<le> (1 - t) * (2 + t - 2 * (t * t))"
    using assms by simp
  then have "0 \<le> 1 - ease t"
    unfolding high by simp
  with ge show ?thesis by simp
qed

lemma ease_fixed_points: "ease t = t \<longleftrightarrow> t = 0 \<or> t = 1 / 2 \<or> t = 1"
proof -
  have diff: "ease t - t = - (t * (2 * t - 1) * (t - 1)) / 2"
    by (simp add: ease_def field_simps)
  have "ease t = t \<longleftrightarrow> ease t - t = 0"
    by simp
  also have "\<dots> \<longleftrightarrow> t * (2 * t - 1) * (t - 1) = 0"
    unfolding diff by simp
  also have "\<dots> \<longleftrightarrow> t = 0 \<or> t = 1 / 2 \<or> t = 1"
    by auto
  finally show ?thesis .
qed

text \<open>
  C3, as stated, fails: at \<open>t = 1/4\<close> between \<open>(0, 0)\<close> and \<open>(64, 0)\<close> the curve with
  doubled end points is at \<open>x = 13\<close>, the linear interpolation at \<open>x = 16\<close>.
\<close>

theorem catmullRomPoint_doubled_not_linear:
  "catmullRomPoint (1 / 4) (Point 0 0) (Point 0 0) (Point 64 0) (Point 64 0) = Point 13 0
   \<and> catmullRomPoint (1 / 4) (Point 0 0) (Point 0 0) (Point 64 0) (Point 64 0)
       \<noteq> Point (0 + 1 / 4 * (64 - 0)) (0 + 1 / 4 * (0 - 0))"
  by (simp add: catmullRomPoint_def Let_def)

text \<open>
  C3, amended: for all points \<open>p\<close>, \<open>q\<close> and all \<open>t\<close>, the curve with doubled end points
  is \<open>p + s * (q - p)\<close> componentwise with \<open>s = ease t = (t + 3 t\<^sup>2 - 2 t\<^sup>3) / 2\<close>; for \<open>t\<close>
  in \<open>[0, 1]\<close> this \<open>s\<close> is in \<open>[0, 1]\<close>, so the point is on the straight segment from \<open>p\<close>
  to \<open>q\<close>; and \<open>s = t\<close>, the linear interpolation, exactly when \<open>t\<close> is 0, 1/2 or 1.
\<close>

theorem catmullRomPoint_doubled:
  "catmullRomPoint t p p q q =
     Point (px p + ease t * (px q - px p)) (py p + ease t * (py q - py p))
   \<and> (0 \<le> t \<and> t \<le> 1 \<longrightarrow> 0 \<le> ease t \<and> ease t \<le> 1)
   \<and> (ease t = t \<longleftrightarrow> t = 0 \<or> t = 1 / 2 \<or> t = 1)"
  using catmullRomPoint_ease ease_range ease_fixed_points by blast

theorem catmullRomPoint_doubled_witness:
  "catmullRomPoint (1 / 2) (Point 0 0) (Point 0 0) (Point 64 8) (Point 64 8) = Point 32 4
   \<and> (0 :: real) \<le> 1 / 2 \<and> (1 / 2 :: real) \<le> 1 \<and> ease (1 / 2) = 1 / 2"
  using catmullRomPoint_doubled [of "1 / 2" "Point 0 0" "Point 64 8"] by simp

subsection \<open>The length estimate\<close>

lemma hypot_zero: "hypot a 0 = \<bar>a\<bar>"
  by (simp add: hypot_def)

lemma pdist_triangle: "pdist a c \<le> pdist a b + pdist b c"
proof -
  have "sqrt ((px a - px b + (px b - px c))\<^sup>2 + (py a - py b + (py b - py c))\<^sup>2)
      \<le> sqrt ((px a - px b)\<^sup>2 + (py a - py b)\<^sup>2) + sqrt ((px b - px c)\<^sup>2 + (py b - py c)\<^sup>2)"
    by (rule real_sqrt_sum_squares_triangle_ineq)
  then show ?thesis
    by (simp add: pdist_def hypot_def power2_eq_square)
qed

lemma pdist_same: "pdist a a = 0"
  by (simp add: pdist_def hypot_def)

text \<open>The loop adds up the distances of consecutive sample points.\<close>

lemma catmullRomLength_loop_sum:
  "catmullRomLength_loop p0 p1 p2 p3 n (Suc j) len (polyline p0 p1 p2 p3 n j) =
     len + (\<Sum>k = j..<n. pdist (polyline p0 p1 p2 p3 n (Suc k)) (polyline p0 p1 p2 p3 n k))"
proof (induction "n - j" arbitrary: j len)
  case 0
  then show ?case
    by (subst catmullRomLength_loop.simps) simp
next
  case (Suc d)
  then have jn: "j < n" and d: "d = n - Suc j"
    by auto
  have range: "{j..<n} = insert j {Suc j..<n}"
    using jn by auto
  have "catmullRomLength_loop p0 p1 p2 p3 n (Suc j) len (polyline p0 p1 p2 p3 n j) =
        catmullRomLength_loop p0 p1 p2 p3 n (Suc (Suc j))
          (len + pdist (polyline p0 p1 p2 p3 n (Suc j)) (polyline p0 p1 p2 p3 n j))
          (polyline p0 p1 p2 p3 n (Suc j))"
    using jn by (subst catmullRomLength_loop.simps) (simp add: Let_def polyline_def pdist_def)
  also have "\<dots> = len + pdist (polyline p0 p1 p2 p3 n (Suc j)) (polyline p0 p1 p2 p3 n j) +
      (\<Sum>k = Suc j..<n. pdist (polyline p0 p1 p2 p3 n (Suc k)) (polyline p0 p1 p2 p3 n k))"
    by (rule Suc.hyps(1)[OF d])
  finally show ?case
    by (simp add: range)
qed

lemma catmullRomLength_sum:
  "catmullRomLength p0 p1 p2 p3 n =
     (\<Sum>k<n. pdist (polyline p0 p1 p2 p3 n (Suc k)) (polyline p0 p1 p2 p3 n k))"
proof -
  have "polyline p0 p1 p2 p3 n 0 = p1"
    by (simp add: polyline_def catmullRomPoint_0)
  then show ?thesis
    using catmullRomLength_loop_sum[of p0 p1 p2 p3 n 0 0]
    by (simp add: catmullRomLength_def atLeast0LessThan)
qed

lemma pdist_chain:
  "pdist (f (a + q)) (f a) \<le> (\<Sum>l = a..<a + q. pdist (f (Suc l)) (f l))"
proof (induction q)
  case 0
  then show ?case by (simp add: pdist_same)
next
  case (Suc q)
  have "pdist (f (a + Suc q)) (f a) \<le> pdist (f (Suc (a + q))) (f (a + q)) + pdist (f (a + q)) (f a)"
    using pdist_triangle[of "f (a + Suc q)" "f a" "f (a + q)"] by simp
  with Suc show ?case by simp
qed

lemma polyline_refine:
  assumes "0 < q"
  shows "polyline p0 p1 p2 p3 (m * q) (j * q) = polyline p0 p1 p2 p3 m j"
  using assms by (simp add: polyline_def)

text \<open>
  C4, as stated, fails: with \<open>p0 = p3 = (-2, 0)\<close> and \<open>p1 = p2 = (0, 0)\<close> the curve goes
  out to \<open>x = 1/4\<close> and back; two samples see the turning point and give 1/2, three
  samples miss it and give 4/9.
\<close>

theorem catmullRomLength_not_monotone:
  "catmullRomLength (Point (- 2) 0) (Point 0 0) (Point 0 0) (Point (- 2) 0) 2 = 1 / 2
   \<and> catmullRomLength (Point (- 2) 0) (Point 0 0) (Point 0 0) (Point (- 2) 0) 3 = 4 / 9
   \<and> \<not> catmullRomLength (Point (- 2) 0) (Point 0 0) (Point 0 0) (Point (- 2) 0) 2
        \<le> catmullRomLength (Point (- 2) 0) (Point 0 0) (Point 0 0) (Point (- 2) 0) 3"
  unfolding catmullRomLength_def
  by (simp add: catmullRomLength_loop.simps catmullRomPoint_def Let_def hypot_zero)

text \<open>
  C4, amended: in exact arithmetic, the estimate does not decrease when the sample count is
  multiplied: for all control points, every sample count \<open>m\<close> and every \<open>q \<ge> 1\<close>, the
  length estimated with \<open>m\<close> samples is at most the length estimated with \<open>m * q\<close>
  samples. (The code adds the distances in doubles, where each distance and each partial
  sum is rounded; the inequality is about the exact values of the two sums.)
\<close>

theorem catmullRomLength_refine:
  assumes "0 < q"
  shows "catmullRomLength p0 p1 p2 p3 m \<le> catmullRomLength p0 p1 p2 p3 (m * q)"
proof -
  let ?f = "polyline p0 p1 p2 p3 (m * q)"
  let ?g = "\<lambda>k. pdist (?f (Suc k)) (?f k)"
  have "catmullRomLength p0 p1 p2 p3 m = (\<Sum>j<m. pdist (?f (j * q + q)) (?f (j * q)))"
    unfolding catmullRomLength_sum
    using polyline_refine[OF assms, of p0 p1 p2 p3 m]
    by (metis (no_types, lifting) add.commute mult_Suc)
  also have "\<dots> \<le> (\<Sum>j<m. sum ?g {j * q..<j * q + q})"
    by (rule sum_mono) (rule pdist_chain)
  also have "\<dots> = sum ?g {..<m * q}"
    by (rule sum.nat_group)
  finally show ?thesis
    by (simp add: catmullRomLength_sum)
qed

theorem catmullRomLength_refine_witness:
  "(0 :: nat) < 2
   \<and> catmullRomLength (Point (- 2) 0) (Point 0 0) (Point 0 0) (Point (- 2) 0) 1
      \<le> catmullRomLength (Point (- 2) 0) (Point 0 0) (Point 0 0) (Point (- 2) 0) (1 * 2)"
  using catmullRomLength_refine [of 2 "Point (- 2) 0" "Point 0 0" "Point 0 0" "Point (- 2) 0" 1]
  by simp

section \<open>Properties of the segmenter and the compositor\<close>

lemma effectivePressure_pos: "0 < effectivePressure p"
  by (simp add: effectivePressure_def)

lemma segmentSpacing_ge_1: "1 \<le> segmentSpacing brush pressure1 pressure2"
  by (simp add: segmentSpacing_def)

lemma stampCount_ge_1: "1 \<le> stampCount brush p0 p1 p2 p3 pressure1 pressure2"
  by (simp add: stampCount_def)

lemma length_stampRequests:
  "length (stampRequests brush p0 p1 p2 p3 pressure1 pressure2) =
     nat (stampCount brush p0 p1 p2 p3 pressure1 pressure2) + 1"
  using stampCount_ge_1[of brush p0 p1 p2 p3 pressure1 pressure2]
  by (simp add: stampRequests_def)

lemma drawSplineSegment_loop_foldl:
  "drawSplineSegment_loop brush rnd p0 p1 p2 p3 pressure1 pressure2 n i st =
     paintRequests brush rnd (map (stampRequest p0 p1 p2 p3 pressure1 pressure2 n) [i..n]) st"
proof (induction brush rnd p0 p1 p2 p3 pressure1 pressure2 n i st rule: drawSplineSegment_loop.induct)
  case (1 brush rnd p0 p1 p2 p3 pressure1 pressure2 numSteps i st)
  show ?case
  proof (cases "i \<le> numSteps")
    case True
    let ?t = "real_of_int i / real_of_int numSteps"
    let ?st = "paintBrush brush rnd (px (catmullRomPoint ?t p0 p1 p2 p3))
        (py (catmullRomPoint ?t p0 p1 p2 p3)) (pressure1 + (pressure2 - pressure1) * ?t) st"
    have range: "[i..numSteps] = i # [i + 1..numSteps]"
      using True by (simp add: upto_rec1)
    have "drawSplineSegment_loop brush rnd p0 p1 p2 p3 pressure1 pressure2 numSteps i st =
          drawSplineSegment_loop brush rnd p0 p1 p2 p3 pressure1 pressure2 numSteps (i + 1) ?st"
      by (subst drawSplineSegment_loop.simps) (simp only: True if_True Let_def)
    also have "\<dots> = paintRequests brush rnd
        (map (stampRequest p0 p1 p2 p3 pressure1 pressure2 numSteps) [i + 1..numSteps]) ?st"
      by (rule 1[OF True refl refl refl])
    finally have "drawSplineSegment_loop brush rnd p0 p1 p2 p3 pressure1 pressure2 numSteps i st =
        paintRequests brush rnd
          (map (stampRequest p0 p1 p2 p3 pressure1 pressure2 numSteps) [i + 1..numSteps]) ?st" .
    moreover have "fst (stampRequest p0 p1 p2 p3 pressure1 pressure2 numSteps i) =
        catmullRomPoint ?t p0 p1 p2 p3"
      and "snd (stampRequest p0 p1 p2 p3 pressure1 pressure2 numSteps i) =
        pressure1 + (pressure2 - pressure1) * ?t"
      by (simp_all add: stampRequest_def)
    ultimately show ?thesis
      by (simp add: range paintRequests_def)
  next
    case False
    then show ?thesis
      by (subst drawSplineSegment_loop.simps) (simp add: paintRequests_def)
  qed
qed

lemma drawSplineSegment_requests:
  "drawSplineSegment brush rnd p0 p1 p2 p3 pressure1 pressure2 st =
     paintRequests brush rnd (stampRequests brush p0 p1 p2 p3 pressure1 pressure2) st"
  by (simp add: drawSplineSegment_def Let_def drawSplineSegment_loop_foldl stampRequests_def
      stampCount_def segmentSpacing_def effectivePressure_def)

lemma length_trail_paintBrush:
  "length (trail (paintBrush brush rnd x y pressure st)) = length (trail st) + spritesPerStamp brush"
  by (simp add: paintBrush_def Let_def spritesPerStamp_def)

lemma paintRequests_snoc:
  "paintRequests brush rnd (reqs @ [r]) st =
     paintBrush brush rnd (px (fst r)) (py (fst r)) (snd r) (paintRequests brush rnd reqs st)"
  by (simp add: paintRequests_def)

lemma length_trail_paintRequests:
  "length (trail (paintRequests brush rnd reqs st)) =
     length (trail st) + length reqs * spritesPerStamp brush"
  by (induction reqs rule: rev_induct)
     (simp_all add: paintRequests_snoc length_trail_paintBrush, simp add: paintRequests_def)

text \<open>
  C5: for every processed segment the spacing is \<open>max 1 (size * effectivePressure * spacing)\<close>
  and the stamp count is \<open>max 1 \<lceil>length / spacing\<rceil>\<close>, both at least 1, so that no division
  is by zero; \<open>drawSplineSegment\<close>, a total function, paints exactly the stamp requests for
  \<open>i = 0, \<dots>, count\<close> at \<open>t = i / count\<close>, whatever the control points and pressures are,
  and the trail grows by \<open>count + 1\<close> stamps (each with its grain sprite, if any).
\<close>

theorem drawSplineSegment_stamps:
  "1 \<le> segmentSpacing brush pressure1 pressure2
   \<and> 1 \<le> stampCount brush p0 p1 p2 p3 pressure1 pressure2
   \<and> length (stampRequests brush p0 p1 p2 p3 pressure1 pressure2) =
       nat (stampCount brush p0 p1 p2 p3 pressure1 pressure2) + 1
   \<and> drawSplineSegment brush rnd p0 p1 p2 p3 pressure1 pressure2 st =
       paintRequests brush rnd (stampRequests brush p0 p1 p2 p3 pressure1 pressure2) st
   \<and> length (trail (drawSplineSegment brush rnd p0 p1 p2 p3 pressure1 pressure2 st)) =
       length (trail st)
       + (nat (stampCount brush p0 p1 p2 p3 pressure1 pressure2) + 1) * spritesPerStamp brush"
  by (simp add: segmentSpacing_ge_1 stampCount_ge_1 length_stampRequests
      drawSplineSegment_requests length_trail_paintRequests)

lemma last_trail_paintBrush:
  "last (trail (paintBrush brush rnd x y pressure st)) =
     \<lparr> sprite_id = nextSprite st,
       sprite_texture = texture (shape brush),
       sprite_anchor = 0.5,
       sprite_x = x + (rnd (randoms st) - 0.5) * (size' brush * effectivePressure pressure * jitter (stroke brush)),
       sprite_y = y + (rnd (randoms st + 1) - 0.5) * (size' brush * effectivePressure pressure * jitter (stroke brush)),
       sprite_width = size' brush * effectivePressure pressure,
       sprite_height = size' brush * effectivePressure pressure,
       sprite_rotation = 0,
       sprite_alpha = max 0.2 (effectivePressure pressure * alpha brush),
       sprite_blendMode = Normal,
       sprite_tint = Some (color brush) \<rparr>"
  by (simp add: paintBrush_def Let_def effectivePressure_def)

text \<open>
  C6: the stamp that \<open>paintBrush\<close> adds (the last sprite of the trail) has width and height
  \<open>size * effectivePressure\<close> and alpha \<open>max 0.2 (effectivePressure * alpha)\<close>, where the
  effective pressure is the given pressure if it is positive and 0.5 otherwise; so alpha is
  never below 0.2, and a pressure of 0 is replaced by 0.5.
\<close>

theorem paintBrush_stamp:
  "sprite_width (last (trail (paintBrush brush rnd x y pressure st))) = size' brush * effectivePressure pressure
   \<and> sprite_height (last (trail (paintBrush brush rnd x y pressure st))) = size' brush * effectivePressure pressure
   \<and> sprite_alpha (last (trail (paintBrush brush rnd x y pressure st))) = max 0.2 (effectivePressure pressure * alpha brush)
   \<and> 0.2 \<le> sprite_alpha (last (trail (paintBrush brush rnd x y pressure st)))
   \<and> effectivePressure 0 = 0.5
   \<and> sprite_width (last (trail (paintBrush brush rnd x y 0 st))) = size' brush * 0.5"
  by (simp add: last_trail_paintBrush effectivePressure_def)

lemma paintBrush_jitter_0:
  assumes "jitter (stroke brush) = 0"
  shows "paintBrush brush rnd1 x y pressure st = paintBrush brush rnd2 x y pressure st"
  using assms by (simp add: paintBrush_def Let_def)

lemma paintRequests_jitter_0:
  assumes "jitter (stroke brush) = 0"
  shows "paintRequests brush rnd1 reqs st = paintRequests brush rnd2 reqs st"
  by (induction reqs rule: rev_induct)
     (simp add: paintRequests_def, simp add: paintRequests_snoc paintBrush_jitter_0[OF assms, of rnd1 _ _ _ _ rnd2])

lemma drawSplineSegment_jitter_0:
  assumes "jitter (stroke brush) = 0"
  shows "drawSplineSegment brush rnd1 p0 p1 p2 p3 pressure1 pressure2 st =
         drawSplineSegment brush rnd2 p0 p1 p2 p3 pressure1 pressure2 st"
  by (simp add: drawSplineSegment_requests paintRequests_jitter_0[OF assms, of rnd1 _ _ rnd2])

lemma drawSplineSegment_call_jitter_0:
  assumes "jitter (stroke brush) = 0"
  shows "drawSplineSegment_call brush rnd1 args st = drawSplineSegment_call brush rnd2 args st"
  by (cases "(brush, rnd1, args, st)" rule: drawSplineSegment_call.cases)
     (simp_all add: drawSplineSegment_jitter_0[OF assms, of rnd1 _ _ _ _ _ _ _ rnd2])

lemma onDrawMove_jitter_0:
  assumes "jitter (stroke brush) = 0"
  shows "onDrawMove brush rnd1 e st = onDrawMove brush rnd2 e st"
  by (simp add: onDrawMove_def Let_def drawSplineSegment_call_jitter_0[OF assms, of rnd1 _ _ rnd2]
      split: option.splits)

lemma onDrawEnd_jitter_0:
  assumes "jitter (stroke brush) = 0"
  shows "onDrawEnd brush rnd1 st = onDrawEnd brush rnd2 st"
  by (simp add: onDrawEnd_def drawSplineSegment_call_jitter_0[OF assms, of rnd1 _ _ rnd2])

lemma step_jitter_0:
  assumes "jitter (stroke brush) = 0"
  shows "step brush rnd1 g e st = step brush rnd2 g e st"
  by (cases e) (simp_all add: onDrawMove_jitter_0[OF assms, of rnd1 _ _ rnd2]
      onDrawEnd_jitter_0[OF assms, of rnd1 _ rnd2])

lemma run_jitter_0:
  assumes "jitter (stroke brush) = 0"
  shows "run brush rnd1 g es st = run brush rnd2 g es st"
  by (induction es arbitrary: st) (simp_all add: step_jitter_0[OF assms, of rnd1 _ _ _ rnd2])

lemma paintBrush_jitter_0_position:
  assumes "jitter (stroke brush) = 0"
  shows "sprite_x (last (trail (paintBrush brush rnd x y pressure st))) = x"
    and "sprite_y (last (trail (paintBrush brush rnd x y pressure st))) = y"
  using assms by (simp_all add: last_trail_paintBrush)

text \<open>With jitter the draws do show: the same request lands at different places.\<close>

lemma paintBrush_jitter_visible:
  "sprite_x (last (trail (paintBrush (defaultBrush \<lparr> stroke := \<lparr> spacing = 0.05, jitter = 1, falloff = 0 \<rparr> \<rparr>)
       (\<lambda>k. 0) 10 10 1 initialCanvas))) = - 15
   \<and> sprite_x (last (trail (paintBrush (defaultBrush \<lparr> stroke := \<lparr> spacing = 0.05, jitter = 1, falloff = 0 \<rparr> \<rparr>)
       (\<lambda>k. 1 / 2) 10 10 1 initialCanvas))) = 10"
  by (simp add: last_trail_paintBrush effectivePressure_def defaultBrush_def initialCanvas_def)

text \<open>
  C8: with \<open>jitter = 0\<close>, the random draws displace no stamp (it is placed at the requested
  position), and two runs over the same inputs with the same brush and any two sequences of
  random draws end in the same state; in particular the sprites of the trail have the same
  positions and sizes.
\<close>

theorem run_deterministic_without_jitter:
  assumes "jitter (stroke brush) = 0"
  shows "sprite_x (last (trail (paintBrush brush rnd1 x y pressure st))) = x
    \<and> sprite_y (last (trail (paintBrush brush rnd1 x y pressure st))) = y
    \<and> run brush rnd1 g es st = run brush rnd2 g es st
    \<and> map (\<lambda>s. (sprite_x s, sprite_y s, sprite_width s, sprite_height s))
          (trail (run brush rnd1 g es st)) =
        map (\<lambda>s. (sprite_x s, sprite_y s, sprite_width s, sprite_height s))
          (trail (run brush rnd2 g es st))"
  by (simp add: run_jitter_0[OF assms, of rnd1 g es st rnd2] paintBrush_jitter_0_position[OF assms])

theorem run_deterministic_without_jitter_witness:
  "jitter (stroke defaultBrush) = 0
   \<and> sprite_x (last (trail (paintBrush defaultBrush (\<lambda>k. 0) 10 20 1 initialCanvas))) = 10
   \<and> run defaultBrush (\<lambda>k. 0) (\<lambda>t c. Inr (Texture 1))
         [Start \<lparr> ev_global = Point 0 0, ev_pressure = 1 \<rparr>,
          Move \<lparr> ev_global = Point 100 0, ev_pressure = 1 \<rparr>, End] initialCanvas =
       run defaultBrush (\<lambda>k. 9 / 10) (\<lambda>t c. Inr (Texture 1))
         [Start \<lparr> ev_global = Point 0 0, ev_pressure = 1 \<rparr>,
          Move \<lparr> ev_global = Point 100 0, ev_pressure = 1 \<rparr>, End] initialCanvas"
proof -
  have j: "jitter (stroke defaultBrush) = 0"
    by (simp add: defaultBrush_def)
  show ?thesis
    using j run_deterministic_without_jitter [OF j, of "\<lambda>k. 0" 10 20 1 initialCanvas
        "\<lambda>t c. Inr (Texture 1)"
        "[Start \<lparr> ev_global = Point 0 0, ev_pressure = 1 \<rparr>,
          Move \<lparr> ev_global = Point 100 0, ev_pressure = 1 \<rparr>, End]" "\<lambda>k. 9 / 10"]
    by simp
qed

section \<open>Properties of the pointer handlers\<close>

lemma paintBrush_frame:
  "isDrawing (paintBrush brush rnd x y pressure st) = isDrawing st"
  "pathPoints (paintBrush brush rnd x y pressure st) = pathPoints st"
  "pressurePoints (paintBrush brush rnd x y pressure st) = pressurePoints st"
  by (simp_all add: paintBrush_def Let_def)

lemma paintRequests_frame:
  "isDrawing (paintRequests brush rnd reqs st) = isDrawing st"
  "pathPoints (paintRequests brush rnd reqs st) = pathPoints st"
  "pressurePoints (paintRequests brush rnd reqs st) = pressurePoints st"
  by (induction reqs rule: rev_induct)
     (simp_all add: paintRequests_snoc paintBrush_frame, simp_all add: paintRequests_def)

lemma drawSplineSegment_frame:
  "isDrawing (drawSplineSegment brush rnd p0 p1 p2 p3 pressure1 pressure2 st) = isDrawing st"
  "pathPoints (drawSplineSegment brush rnd p0 p1 p2 p3 pressure1 pressure2 st) = pathPoints st"
  "pressurePoints (drawSplineSegment brush rnd p0 p1 p2 p3 pressure1 pressure2 st) = pressurePoints st"
  by (simp_all add: drawSplineSegment_requests paintRequests_frame)

lemma stampRequests_snoc:
  "stampRequests brush p0 p1 p2 p3 pressure1 pressure2 =
     map (stampRequest p0 p1 p2 p3 pressure1 pressure2 (stampCount brush p0 p1 p2 p3 pressure1 pressure2))
       [0 .. stampCount brush p0 p1 p2 p3 pressure1 pressure2 - 1] @ [(p2, pressure2)]"
proof -
  let ?n = "stampCount brush p0 p1 p2 p3 pressure1 pressure2"
  have n: "1 \<le> ?n" by (rule stampCount_ge_1)
  then have "[0..?n] = [0..?n - 1] @ [?n]"
    by (simp add: upto_rec2)
  moreover have "stampRequest p0 p1 p2 p3 pressure1 pressure2 ?n ?n = (p2, pressure2)"
    using n by (simp add: stampRequest_def catmullRomPoint_1)
  ultimately show ?thesis
    by (simp add: stampRequests_def)
qed

lemma drawSplineSegment_last_stamp:
  assumes "jitter (stroke brush) = 0"
  shows "sprite_x (last (trail (drawSplineSegment brush rnd p0 p1 p2 p3 pressure1 pressure2 st))) = px p2"
    and "sprite_y (last (trail (drawSplineSegment brush rnd p0 p1 p2 p3 pressure1 pressure2 st))) = py p2"
  using assms
  by (simp_all add: drawSplineSegment_requests stampRequests_snoc paintRequests_snoc
      last_trail_paintBrush)

lemma moveSegment_eq:
  assumes "2 \<le> length pts" and "length prs = length pts"
  shows "moveSegment pts prs =
     Some (Some (pts ! (length pts - 3)), Some (pts ! (length pts - 2)),
           Some (pts ! (length pts - 1)), Some (pts ! (length pts - 1)),
           Some (prs ! (length pts - 2)), Some (prs ! (length pts - 1)))"
proof (cases "length pts = 2")
  case True
  with assms show ?thesis
    by (simp add: moveSegment_def Let_def js_index_def)
next
  case False
  with assms have n: "3 \<le> length pts" by simp
  then have "nat (int (length pts) - 3) = length pts - 3"
    "nat (int (length pts) - 2) = length pts - 2"
    "nat (int (length pts) - 1) = length pts - 1"
    by simp_all
  with n False assms(2) show ?thesis
    by (auto simp: moveSegment_def Let_def js_index_def js_or_def)
qed

lemma endSegment_eq:
  assumes "2 \<le> length pts" and "length prs = length pts"
  shows "endSegment pts prs =
     (Some (pts ! (length pts - 3)), Some (pts ! (length pts - 2)),
      Some (pts ! (length pts - 1)), Some (pts ! (length pts - 1)),
      Some (prs ! (length pts - 2)),
      Some (if prs ! (length pts - 1) = 0 then prs ! (length pts - 2) else prs ! (length pts - 1)))"
proof (cases "length pts = 2")
  case True
  with assms show ?thesis
    by (simp add: endSegment_def Let_def js_index_def js_or_def js_or_num_def)
next
  case False
  with assms have n: "3 \<le> length pts" by simp
  then have "nat (int (length pts) - 3) = length pts - 3"
    "nat (int (length pts) - 2) = length pts - 2"
    "nat (int (length pts) - 1) = length pts - 1"
    by simp_all
  with n False assms(2) show ?thesis
    by (auto simp: endSegment_def Let_def js_index_def js_or_def js_or_num_def)
qed

lemma onDrawMove_accepted:
  assumes "accepted e st" and "length (pressurePoints st) = length (pathPoints st)"
  shows "onDrawMove brush rnd e st =
     (None, drawSplineSegment brush rnd
        (pathPoints (pushPoint e st) ! (length (pathPoints (pushPoint e st)) - 3))
        (pathPoints (pushPoint e st) ! (length (pathPoints (pushPoint e st)) - 2))
        (pathPoints (pushPoint e st) ! (length (pathPoints (pushPoint e st)) - 1))
        (pathPoints (pushPoint e st) ! (length (pathPoints (pushPoint e st)) - 1))
        (pressurePoints (pushPoint e st) ! (length (pathPoints (pushPoint e st)) - 2))
        (pressurePoints (pushPoint e st) ! (length (pathPoints (pushPoint e st)) - 1))
        (pushPoint e st))"
proof -
  let ?st1 = "pushPoint e st"
  from assms(1) have d: "isDrawing st" and ne: "pathPoints st \<noteq> []"
    and far: "\<not> hypot (px (ev_global e) - px (last (pathPoints st)))
              (py (ev_global e) - py (last (pathPoints st))) < 4"
    by (simp_all add: accepted_def)
  have lastp: "js_index (pathPoints st) (int (length (pathPoints st)) - 1) = Some (last (pathPoints st))"
    using ne by (simp add: js_index_def last_conv_nth nat_diff_distrib')
  have len: "2 \<le> length (pathPoints ?st1)" "length (pressurePoints ?st1) = length (pathPoints ?st1)"
    using ne assms(2) by (simp_all add: pushPoint_def Suc_le_eq)
  note mv = moveSegment_eq[OF len]
  show ?thesis
    using d far mv by (simp add: onDrawMove_def Let_def lastp pushPoint_def)
qed

lemma onDrawEnd_draws:
  assumes "isDrawing st" and "2 \<le> length (pathPoints st)"
    and "length (pressurePoints st) = length (pathPoints st)"
  shows "onDrawEnd brush rnd st =
     (None, scheduleFlatten
        ((drawSplineSegment brush rnd
            (pathPoints st ! (length (pathPoints st) - 3))
            (pathPoints st ! (length (pathPoints st) - 2))
            (pathPoints st ! (length (pathPoints st) - 1))
            (pathPoints st ! (length (pathPoints st) - 1))
            (pressurePoints st ! (length (pathPoints st) - 2))
            (if pressurePoints st ! (length (pathPoints st) - 1) = 0
             then pressurePoints st ! (length (pathPoints st) - 2)
             else pressurePoints st ! (length (pathPoints st) - 1))
            st)
         \<lparr> isDrawing := False, pathPoints := [], pressurePoints := [] \<rparr>))"
  using assms by (simp add: onDrawEnd_def endSegment_eq[OF assms(2,3)])

lemma trail_paintBrush_plain:
  assumes "grainTexture (shape brush) = EMPTY"
  shows "trail (paintBrush brush rnd x y pressure st) =
         trail st @ [last (trail (paintBrush brush rnd x y pressure st))]"
  using assms by (simp add: paintBrush_def Let_def)

lemma paintRequests_positions:
  assumes "jitter (stroke brush) = 0" and "grainTexture (shape brush) = EMPTY"
  shows "map sprite_x (trail (paintRequests brush rnd reqs st)) =
         map sprite_x (trail st) @ map (\<lambda>r. px (fst r)) reqs"
proof (induction reqs rule: rev_induct)
  case Nil
  show ?case by (simp add: paintRequests_def)
next
  case (snoc r reqs)
  let ?st = "paintRequests brush rnd reqs st"
  have "trail (paintBrush brush rnd (px (fst r)) (py (fst r)) (snd r) ?st) =
      trail ?st @ [last (trail (paintBrush brush rnd (px (fst r)) (py (fst r)) (snd r) ?st))]"
    by (rule trail_paintBrush_plain[OF assms(2)])
  then show ?case
    using snoc assms(1) by (simp add: paintRequests_snoc last_trail_paintBrush)
qed

lemma trail_scheduleFlatten: "trail (scheduleFlatten st) = trail st"
  by (simp add: scheduleFlatten_def Let_def clearTimeout_def split: option.splits)

lemma length_6_20: "catmullRomLength (Point 0 0) (Point 0 0) (Point 6 0) (Point 6 0) 20 = 6"
  unfolding catmullRomLength_def
  by (simp add: catmullRomLength_loop.simps catmullRomPoint_def Let_def hypot_zero)

lemma stampRequests_1_0:
  "map (\<lambda>r. px (fst r)) (stampRequests defaultBrush (Point 0 0) (Point 0 0) (Point 6 0) (Point 6 0) 1 0) =
     [0, 114 / 125, 282 / 125, 468 / 125, 636 / 125, 6]"
proof -
  have "stampCount defaultBrush (Point 0 0) (Point 0 0) (Point 6 0) (Point 6 0) 1 0 = 5"
    by (simp add: stampCount_def length_6_20 segmentSpacing_def effectivePressure_def defaultBrush_def)
  then show ?thesis
    by (simp add: stampRequests_def stampRequest_def upto.simps catmullRomPoint_def Let_def)
qed

lemma stampRequests_1_1:
  "map (\<lambda>r. px (fst r)) (stampRequests defaultBrush (Point 0 0) (Point 0 0) (Point 6 0) (Point 6 0) 1 1) =
     [0, 16 / 9, 38 / 9, 6]"
proof -
  have "stampCount defaultBrush (Point 0 0) (Point 0 0) (Point 6 0) (Point 6 0) 1 1 = 3"
    by (simp add: stampCount_def length_6_20 segmentSpacing_def effectivePressure_def defaultBrush_def)
  then show ?thesis
    by (simp add: stampRequests_def stampRequest_def upto.simps catmullRomPoint_def Let_def)
qed

lemma defaultBrush_plain:
  "jitter (stroke defaultBrush) = 0" "grainTexture (shape defaultBrush) = EMPTY"
  by (simp_all add: defaultBrush_def)

text \<open>
  C1, as stated, fails: the segment processed when the third point arrives runs from the
  second point to the third, not from the first to the second. After the points \<open>(0, 0)\<close>,
  \<open>(10, 0)\<close>, \<open>(20, 0)\<close> the arguments are \<open>p1 = (10, 0)\<close> and \<open>p2 = p3 = (20, 0)\<close>, and
  the last stamp painted is at the newest point, \<open>x = 20\<close>.
\<close>

theorem onDrawMove_no_lag:
  "moveSegment [Point 0 0, Point 10 0, Point 20 0] [1, 1, 1] =
     Some (Some (Point 0 0), Some (Point 10 0), Some (Point 20 0), Some (Point 20 0), Some 1, Some 1)
   \<and> sprite_x (last (trail (run defaultBrush (\<lambda>k. 0) (\<lambda>t c. Inr (Texture 1))
      [Start \<lparr> ev_global = Point 0 0, ev_pressure = 1 \<rparr>,
       Move \<lparr> ev_global = Point 10 0, ev_pressure = 1 \<rparr>,
       Move \<lparr> ev_global = Point 20 0, ev_pressure = 1 \<rparr>] initialCanvas))) = 20"
proof -
  let ?rnd = "\<lambda>k::nat. 0::real"
  let ?e0 = "\<lparr> ev_global = Point 0 0, ev_pressure = 1 \<rparr>"
  let ?e1 = "\<lparr> ev_global = Point 10 0, ev_pressure = 1 \<rparr>"
  let ?e2 = "\<lparr> ev_global = Point 20 0, ev_pressure = 1 \<rparr>"
  define st0 where "st0 = onDrawStart ?e0 initialCanvas"
  define st1 where "st1 = drawSplineSegment defaultBrush ?rnd (Point 0 0) (Point 0 0) (Point 10 0) (Point 10 0) 1 1
      (pushPoint ?e1 st0)"
  define st2 where "st2 = drawSplineSegment defaultBrush ?rnd (Point 0 0) (Point 10 0) (Point 20 0) (Point 20 0) 1 1
      (pushPoint ?e2 st1)"
  have st0: "isDrawing st0" "pathPoints st0 = [Point 0 0]" "pressurePoints st0 = [1]"
    by (simp_all add: st0_def onDrawStart_def initialCanvas_def)
  have acc1: "accepted ?e1 st0"
    by (simp add: accepted_def st0 hypot_zero)
  have move1: "onDrawMove defaultBrush ?rnd ?e1 st0 = (None, st1)"
    using onDrawMove_accepted[OF acc1, of defaultBrush ?rnd]
    by (simp add: st0 st1_def pushPoint_def)
  have st1: "isDrawing st1" "pathPoints st1 = [Point 0 0, Point 10 0]" "pressurePoints st1 = [1, 1]"
    by (simp_all add: st1_def drawSplineSegment_frame pushPoint_def st0)
  have acc2: "accepted ?e2 st1"
    by (simp add: accepted_def st1 hypot_zero)
  have move2: "onDrawMove defaultBrush ?rnd ?e2 st1 = (None, st2)"
    using onDrawMove_accepted[OF acc2, of defaultBrush ?rnd]
    by (simp add: st1 st2_def pushPoint_def)
  have "sprite_x (last (trail st2)) = 20"
    by (simp add: st2_def drawSplineSegment_last_stamp[OF defaultBrush_plain(1)])
  moreover have "moveSegment [Point 0 0, Point 10 0, Point 20 0] [1, 1, 1] =
     Some (Some (Point 0 0), Some (Point 10 0), Some (Point 20 0), Some (Point 20 0), Some 1, Some 1)"
    by (simp add: moveSegment_def Let_def js_index_def js_or_def)
  ultimately show ?thesis
    using move1 move2 by (simp add: st0_def)
qed

text \<open>
  C1, amended: for every accepted move that brings the path to \<open>n \<ge> 3\<close> points, the
  segment processed has the end points \<open>point[n-2]\<close> and \<open>point[n-1]\<close>, the newest point,
  with \<open>p0 = point[n-3]\<close> and \<open>p3\<close> the newest point again; processing does not lag behind
  the cursor, and without jitter the last stamp painted is at the newest point.
\<close>

theorem onDrawMove_draws_newest_segment:
  assumes "accepted e st"
    and "length (pressurePoints st) = length (pathPoints st)"
    and "2 \<le> length (pathPoints st)"
  shows "let pts = pathPoints st @ [ev_global e];
             prs = pressurePoints st @ [ev_pressure e];
             n = length pts
         in 3 \<le> n
          \<and> pts ! (n - 1) = ev_global e
          \<and> onDrawMove brush rnd e st =
              (None, drawSplineSegment brush rnd
                 (pts ! (n - 3)) (pts ! (n - 2)) (pts ! (n - 1)) (pts ! (n - 1))
                 (prs ! (n - 2)) (prs ! (n - 1))
                 (st \<lparr> pathPoints := pts, pressurePoints := prs \<rparr>))
          \<and> (jitter (stroke brush) = 0 \<longrightarrow>
                sprite_x (last (trail (snd (onDrawMove brush rnd e st)))) = px (ev_global e)
              \<and> sprite_y (last (trail (snd (onDrawMove brush rnd e st)))) = py (ev_global e))"
proof -
  have move: "onDrawMove brush rnd e st =
      (None, drawSplineSegment brush rnd
         ((pathPoints st @ [ev_global e]) ! (length (pathPoints st @ [ev_global e]) - 3))
         ((pathPoints st @ [ev_global e]) ! (length (pathPoints st @ [ev_global e]) - 2))
         ((pathPoints st @ [ev_global e]) ! (length (pathPoints st @ [ev_global e]) - 1))
         ((pathPoints st @ [ev_global e]) ! (length (pathPoints st @ [ev_global e]) - 1))
         ((pressurePoints st @ [ev_pressure e]) ! (length (pathPoints st @ [ev_global e]) - 2))
         ((pressurePoints st @ [ev_pressure e]) ! (length (pathPoints st @ [ev_global e]) - 1))
         (st \<lparr> pathPoints := pathPoints st @ [ev_global e],
               pressurePoints := pressurePoints st @ [ev_pressure e] \<rparr>))"
    using onDrawMove_accepted[OF assms(1,2), of brush rnd] by (simp add: pushPoint_def)
  have newest: "(pathPoints st @ [ev_global e]) ! (length (pathPoints st @ [ev_global e]) - 1) = ev_global e"
    by simp
  have three: "3 \<le> length (pathPoints st @ [ev_global e])"
    using assms(3) by simp
  show ?thesis
    unfolding Let_def
    using three newest
    by (simp add: move drawSplineSegment_last_stamp del: length_append)
qed

theorem onDrawMove_draws_newest_segment_witness:
  "accepted \<lparr> ev_global = Point 20 0, ev_pressure = 1 \<rparr>
     (initialCanvas \<lparr> isDrawing := True, pathPoints := [Point 0 0, Point 10 0],
                      pressurePoints := [1, 1] \<rparr>)
   \<and> jitter (stroke defaultBrush) = 0
   \<and> onDrawMove defaultBrush (\<lambda>k. 0) \<lparr> ev_global = Point 20 0, ev_pressure = 1 \<rparr>
       (initialCanvas \<lparr> isDrawing := True, pathPoints := [Point 0 0, Point 10 0],
                        pressurePoints := [1, 1] \<rparr>) =
     (None, drawSplineSegment defaultBrush (\<lambda>k. 0)
        (Point 0 0) (Point 10 0) (Point 20 0) (Point 20 0) 1 1
        (initialCanvas \<lparr> isDrawing := True,
                         pathPoints := [Point 0 0, Point 10 0, Point 20 0],
                         pressurePoints := [1, 1, 1] \<rparr>))
   \<and> sprite_x (last (trail (snd (onDrawMove defaultBrush (\<lambda>k. 0)
         \<lparr> ev_global = Point 20 0, ev_pressure = 1 \<rparr>
         (initialCanvas \<lparr> isDrawing := True, pathPoints := [Point 0 0, Point 10 0],
                          pressurePoints := [1, 1] \<rparr>))))) = 20"
proof -
  let ?e = "\<lparr> ev_global = Point 20 0, ev_pressure = 1 \<rparr>"
  let ?st = "initialCanvas \<lparr> isDrawing := True, pathPoints := [Point 0 0, Point 10 0],
                            pressurePoints := [1, 1] \<rparr>"
  have acc: "accepted ?e ?st"
    by (simp add: accepted_def hypot_zero)
  have len: "length (pressurePoints ?st) = length (pathPoints ?st)" "2 \<le> length (pathPoints ?st)"
    by simp_all
  show ?thesis
    using acc defaultBrush_plain(1)
      onDrawMove_draws_newest_segment [OF acc len, of defaultBrush "\<lambda>k. 0"]
    by (auto simp add: Let_def)
qed

text \<open>
  C10: the end handler is to paint a second set of stamps at the curve positions of the last
  segment of the move handler. The code does not do so for a stroke whose last accepted
  pressure is 0 after a pressure that is not: \<open>onDrawEnd\<close> reads the second pressure as
  \<open>pressurePoints[i+1] || pressure1\<close>, which takes the stored 0 for a missing value, where
  \<open>onDrawMove\<close> reads \<open>pressurePoints[i + 1]\<close>. From \<open>(0, 0)\<close> with pressure 1 to \<open>(6, 0)\<close>
  with pressure 0, the move handler paints 6 stamps, at \<open>t = i/5\<close>; the end handler paints 4
  stamps, at \<open>t = i/3\<close>, at other places of the same curve.
\<close>

theorem onDrawEnd_other_stamps:
  "map sprite_x (trail (run defaultBrush (\<lambda>k. 0) (\<lambda>t c. Inr (Texture 1))
      [Start \<lparr> ev_global = Point 0 0, ev_pressure = 1 \<rparr>,
       Move \<lparr> ev_global = Point 6 0, ev_pressure = 0 \<rparr>] initialCanvas)) =
     [0, 114 / 125, 282 / 125, 468 / 125, 636 / 125, 6]
   \<and> map sprite_x (trail (run defaultBrush (\<lambda>k. 0) (\<lambda>t c. Inr (Texture 1))
      [Start \<lparr> ev_global = Point 0 0, ev_pressure = 1 \<rparr>,
       Move \<lparr> ev_global = Point 6 0, ev_pressure = 0 \<rparr>, End] initialCanvas)) =
     [0, 114 / 125, 282 / 125, 468 / 125, 636 / 125, 6, 0, 16 / 9, 38 / 9, 6]"
proof -
  let ?rnd = "\<lambda>k::nat. 0::real"
  let ?e0 = "\<lparr> ev_global = Point 0 0, ev_pressure = 1 \<rparr>"
  let ?e1 = "\<lparr> ev_global = Point 6 0, ev_pressure = 0 \<rparr>"
  define st0 where "st0 = onDrawStart ?e0 initialCanvas"
  define st1 where "st1 = drawSplineSegment defaultBrush ?rnd (Point 0 0) (Point 0 0) (Point 6 0) (Point 6 0) 1 0
      (pushPoint ?e1 st0)"
  have st0: "isDrawing st0" "pathPoints st0 = [Point 0 0]" "pressurePoints st0 = [1]" "trail st0 = []"
    by (simp_all add: st0_def onDrawStart_def initialCanvas_def)
  have acc: "accepted ?e1 st0"
    by (simp add: accepted_def st0 hypot_zero)
  have move: "onDrawMove defaultBrush ?rnd ?e1 st0 = (None, st1)"
    using onDrawMove_accepted[OF acc, of defaultBrush ?rnd]
    by (simp add: st0 st1_def pushPoint_def)
  have st1: "isDrawing st1" "pathPoints st1 = [Point 0 0, Point 6 0]" "pressurePoints st1 = [1, 0]"
    by (simp_all add: st1_def drawSplineSegment_frame pushPoint_def st0)
  have trail1: "map sprite_x (trail st1) = [0, 114 / 125, 282 / 125, 468 / 125, 636 / 125, 6]"
    by (simp add: st1_def drawSplineSegment_requests paintRequests_positions[OF defaultBrush_plain]
        stampRequests_1_0 pushPoint_def st0)
  have "onDrawEnd defaultBrush ?rnd st1 =
      (None, scheduleFlatten
         ((drawSplineSegment defaultBrush ?rnd (Point 0 0) (Point 0 0) (Point 6 0) (Point 6 0) 1 1 st1)
          \<lparr> isDrawing := False, pathPoints := [], pressurePoints := [] \<rparr>))"
    using onDrawEnd_draws[of st1 defaultBrush ?rnd] by (simp add: st1)
  then have trail2: "map sprite_x (trail (snd (onDrawEnd defaultBrush ?rnd st1))) =
      [0, 114 / 125, 282 / 125, 468 / 125, 636 / 125, 6, 0, 16 / 9, 38 / 9, 6]"
    by (simp add: trail_scheduleFlatten drawSplineSegment_requests
        paintRequests_positions[OF defaultBrush_plain] stampRequests_1_1 trail1)
  show ?thesis
    using trail1 trail2 move by (simp add: st0_def)
qed

text \<open>
  In every other case the end handler repeats the move handler. When a stroke ends with at
  least two accepted points, the end handler processes the segment between the last two
  accepted points with the same four control points (\<open>p3\<close> doubling \<open>p2\<close>; \<open>p0\<close> is the first
  point when there are only two) that the move handler used when it accepted the last
  point; and when the pressure of that last point is not 0, or the pressure before it is 0
  as well, with the same pressures, so that the same stamp requests are painted a second
  time.
\<close>

lemma onDrawEnd_repeats_last_segment:
  assumes "accepted e st0"
    and "length (pressurePoints st0) = length (pathPoints st0)"
    and "isDrawing st"
    and "pathPoints st = pathPoints st0 @ [ev_global e]"
    and "pressurePoints st = pressurePoints st0 @ [ev_pressure e]"
  shows "let pts = pathPoints st;
             prs = pressurePoints st;
             n = length pts;
             reqs = stampRequests brush (pts ! (n - 3)) (pts ! (n - 2)) (pts ! (n - 1)) (pts ! (n - 1))
                      (prs ! (n - 2)) (prs ! (n - 1))
         in map_option controlPoints (moveSegment pts prs) = Some (controlPoints (endSegment pts prs))
          \<and> (ev_pressure e \<noteq> 0 \<or> last (pressurePoints st0) = 0 \<longrightarrow>
                moveSegment pts prs = Some (endSegment pts prs)
              \<and> onDrawMove brush rnd e st0 = (None, paintRequests brush rnd reqs (pushPoint e st0))
              \<and> onDrawEnd brush rnd st =
                  (None, scheduleFlatten
                     ((paintRequests brush rnd reqs st)
                      \<lparr> isDrawing := False, pathPoints := [], pressurePoints := [] \<rparr>)))"
proof -
  from assms(1) have ne: "pathPoints st0 \<noteq> []"
    by (simp add: accepted_def)
  have len: "2 \<le> length (pathPoints st)" "length (pressurePoints st) = length (pathPoints st)"
    using ne assms(2,4,5) by (simp_all add: Suc_le_eq)
  have pushed: "pathPoints (pushPoint e st0) = pathPoints st"
    "pressurePoints (pushPoint e st0) = pressurePoints st"
    by (simp_all add: pushPoint_def assms(4,5))
  have lastpr: "pressurePoints st ! (length (pathPoints st) - 1) = ev_pressure e"
    using assms(2,4,5) by (simp add: nth_append)
  have ne': "pressurePoints st0 \<noteq> []"
    using ne assms(2) by auto
  have prevpr: "pressurePoints st ! (length (pathPoints st) - 2) = last (pressurePoints st0)"
    using ne ne' assms(2) by (simp add: assms(4,5) nth_append last_conv_nth)
  have move: "onDrawMove brush rnd e st0 =
      (None, drawSplineSegment brush rnd
         (pathPoints st ! (length (pathPoints st) - 3))
         (pathPoints st ! (length (pathPoints st) - 2))
         (pathPoints st ! (length (pathPoints st) - 1))
         (pathPoints st ! (length (pathPoints st) - 1))
         (pressurePoints st ! (length (pathPoints st) - 2))
         (pressurePoints st ! (length (pathPoints st) - 1))
         (pushPoint e st0))"
    using onDrawMove_accepted[OF assms(1,2), of brush rnd] by (simp only: pushed)
  show ?thesis
    unfolding Let_def
    using lastpr prevpr
    by (auto simp add: moveSegment_eq[OF len] endSegment_eq[OF len] controlPoints_def
        onDrawEnd_draws[OF assms(3) len] move drawSplineSegment_requests)
qed

text \<open>A stroke with pressure 1 throughout, and a stroke whose pressures are all 0.\<close>

lemma onDrawEnd_repeats_last_segment_example:
  "accepted \<lparr> ev_global = Point 6 0, ev_pressure = 1 \<rparr>
     (onDrawStart \<lparr> ev_global = Point 0 0, ev_pressure = 1 \<rparr> initialCanvas)
   \<and> moveSegment [Point 0 0, Point 6 0] [1, 1] = Some (endSegment [Point 0 0, Point 6 0] [1, 1])
   \<and> onDrawEnd defaultBrush (\<lambda>k. 0)
        (pushPoint \<lparr> ev_global = Point 6 0, ev_pressure = 1 \<rparr>
           (onDrawStart \<lparr> ev_global = Point 0 0, ev_pressure = 1 \<rparr> initialCanvas)) =
      (None, scheduleFlatten
         ((paintRequests defaultBrush (\<lambda>k. 0)
             (stampRequests defaultBrush (Point 0 0) (Point 0 0) (Point 6 0) (Point 6 0) 1 1)
             (pushPoint \<lparr> ev_global = Point 6 0, ev_pressure = 1 \<rparr>
                (onDrawStart \<lparr> ev_global = Point 0 0, ev_pressure = 1 \<rparr> initialCanvas)))
          \<lparr> isDrawing := False, pathPoints := [], pressurePoints := [] \<rparr>))"
proof -
  let ?e = "\<lparr> ev_global = Point 6 0, ev_pressure = 1 \<rparr>"
  let ?st0 = "onDrawStart \<lparr> ev_global = Point 0 0, ev_pressure = 1 \<rparr> initialCanvas"
  have st0: "isDrawing ?st0" "pathPoints ?st0 = [Point 0 0]" "pressurePoints ?st0 = [1]"
    by (simp_all add: onDrawStart_def initialCanvas_def)
  have acc: "accepted ?e ?st0"
    by (simp add: accepted_def st0 hypot_zero)
  have len: "length (pressurePoints ?st0) = length (pathPoints ?st0)"
    by (simp add: st0)
  have st: "isDrawing (pushPoint ?e ?st0)"
    "pathPoints (pushPoint ?e ?st0) = pathPoints ?st0 @ [ev_global ?e]"
    "pressurePoints (pushPoint ?e ?st0) = pressurePoints ?st0 @ [ev_pressure ?e]"
    by (simp_all add: pushPoint_def st0)
  show ?thesis
    using acc onDrawEnd_repeats_last_segment [OF acc len st, of defaultBrush "\<lambda>k. 0"]
    by (simp add: Let_def st st0)
qed

lemma onDrawEnd_repeats_last_segment_zero:
  "accepted \<lparr> ev_global = Point 6 0, ev_pressure = 0 \<rparr>
     (onDrawStart \<lparr> ev_global = Point 0 0, ev_pressure = 0 \<rparr> initialCanvas)
   \<and> moveSegment [Point 0 0, Point 6 0] [0, 0] = Some (endSegment [Point 0 0, Point 6 0] [0, 0])
   \<and> onDrawEnd defaultBrush (\<lambda>k. 0)
        (pushPoint \<lparr> ev_global = Point 6 0, ev_pressure = 0 \<rparr>
           (onDrawStart \<lparr> ev_global = Point 0 0, ev_pressure = 0 \<rparr> initialCanvas)) =
      (None, scheduleFlatten
         ((paintRequests defaultBrush (\<lambda>k. 0)
             (stampRequests defaultBrush (Point 0 0) (Point 0 0) (Point 6 0) (Point 6 0) 0 0)
             (pushPoint \<lparr> ev_global = Point 6 0, ev_pressure = 0 \<rparr>
                (onDrawStart \<lparr> ev_global = Point 0 0, ev_pressure = 0 \<rparr> initialCanvas)))
          \<lparr> isDrawing := False, pathPoints := [], pressurePoints := [] \<rparr>))"
proof -
  let ?e = "\<lparr> ev_global = Point 6 0, ev_pressure = 0 \<rparr>"
  let ?st0 = "onDrawStart \<lparr> ev_global = Point 0 0, ev_pressure = 0 \<rparr> initialCanvas"
  have st0: "isDrawing ?st0" "pathPoints ?st0 = [Point 0 0]" "pressurePoints ?st0 = [0]"
    by (simp_all add: onDrawStart_def initialCanvas_def)
  have acc: "accepted ?e ?st0"
    by (simp add: accepted_def st0 hypot_zero)
  have len: "length (pressurePoints ?st0) = length (pathPoints ?st0)"
    by (simp add: st0)
  have st: "isDrawing (pushPoint ?e ?st0)"
    "pathPoints (pushPoint ?e ?st0) = pathPoints ?st0 @ [ev_global ?e]"
    "pressurePoints (pushPoint ?e ?st0) = pressurePoints ?st0 @ [ev_pressure ?e]"
    by (simp_all add: pushPoint_def st0)
  show ?thesis
    using acc onDrawEnd_repeats_last_segment [OF acc len st, of defaultBrush "\<lambda>k. 0"]
    by (simp add: Let_def st st0)
qed

section \<open>Properties of flatten and clear\<close>

lemma drainTrail_step:
  "drainTrail (st \<lparr> trail := xs @ [s] \<rparr>) = drainTrail (destroy s (st \<lparr> trail := xs \<rparr>))"
  by (subst drainTrail.simps) (simp add: Let_def)

lemma drainTrail_empty: "trail st = [] \<Longrightarrow> drainTrail st = st"
  by (subst drainTrail.simps) simp

lemma drainTrail_eq:
  "drainTrail st =
     st \<lparr> trail := [],
          stage := filter (\<lambda>c. sprite_id c \<notin> sprite_id ` set (trail st)) (stage st),
          destroyed := destroyed st @ rev (map sprite_id (trail st)) \<rparr>"
proof (induction "trail st" arbitrary: st rule: rev_induct)
  case Nil
  then show ?case
    by (simp add: drainTrail_empty[OF Nil[symmetric]])
next
  case (snoc s xs)
  have st: "st = st \<lparr> trail := xs @ [s] \<rparr>"
    using snoc(2) by simp
  let ?st1 = "destroy s (st \<lparr> trail := xs \<rparr>)"
  have t1: "trail ?st1 = xs"
    by (simp add: destroy_def)
  have "drainTrail st = drainTrail ?st1"
    by (subst st) (rule drainTrail_step)
  also have "\<dots> = ?st1 \<lparr> trail := [],
      stage := filter (\<lambda>c. sprite_id c \<notin> sprite_id ` set (trail ?st1)) (stage ?st1),
      destroyed := destroyed ?st1 @ rev (map sprite_id (trail ?st1)) \<rparr>"
    by (rule snoc(1)) (simp add: t1)
  also have "\<dots> = st \<lparr> trail := [],
          stage := filter (\<lambda>c. sprite_id c \<notin> sprite_id ` set (trail st)) (stage st),
          destroyed := destroyed st @ rev (map sprite_id (trail st)) \<rparr>"
    using snoc(2)[symmetric] by (auto simp: destroy_def intro!: filter_cong)
  finally show ?case .
qed

lemma flatten_throws:
  "generateTexture (permanentSprite st) (stage st) = Inl e \<Longrightarrow> flatten generateTexture st = (Some e, st)"
  by (simp add: flatten_def)

lemma flatten_ok:
  "generateTexture (permanentSprite st) (stage st) = Inr tex \<Longrightarrow>
   flatten generateTexture st = (None, drainTrail (st \<lparr> permanentSprite := tex \<rparr>))"
  by (simp add: flatten_def)

text \<open>
  C9: if \<open>generateTexture\<close> throws, \<open>flatten\<close> ends with that exception and the state
  is unchanged: the permanent sprite keeps its texture, the trail is not drained, no sprite
  is destroyed or removed. The texture of the permanent sprite changes only when
  \<open>generateTexture\<close> has returned a texture, and then to that texture.
\<close>

theorem flatten_failure_keeps_state:
  "(generateTexture (permanentSprite st) (stage st) = Inl e \<longrightarrow>
      flatten generateTexture st = (Some e, st))
   \<and> (permanentSprite (snd (flatten generateTexture st)) \<noteq> permanentSprite st \<longrightarrow>
      (\<exists>tex. generateTexture (permanentSprite st) (stage st) = Inr tex
         \<and> fst (flatten generateTexture st) = None
         \<and> permanentSprite (snd (flatten generateTexture st)) = tex))"
  by (cases "generateTexture (permanentSprite st) (stage st)")
     (simp_all add: flatten_def drainTrail_eq)

theorem flatten_failure_keeps_state_witness:
  "trail (paintBrush defaultBrush (\<lambda>k. 0) 3 4 1 initialCanvas) \<noteq> []
   \<and> flatten (\<lambda>t c. Inl RasterError) (paintBrush defaultBrush (\<lambda>k. 0) 3 4 1 initialCanvas) =
       (Some RasterError, paintBrush defaultBrush (\<lambda>k. 0) 3 4 1 initialCanvas)
   \<and> length (trail (snd (flatten (\<lambda>t c. Inl RasterError)
        (paintBrush defaultBrush (\<lambda>k. 0) 3 4 1 initialCanvas)))) = 1
   \<and> destroyed (snd (flatten (\<lambda>t c. Inl RasterError)
        (paintBrush defaultBrush (\<lambda>k. 0) 3 4 1 initialCanvas))) = []
   \<and> permanentSprite (snd (flatten (\<lambda>t c. Inl RasterError)
        (paintBrush defaultBrush (\<lambda>k. 0) 3 4 1 initialCanvas))) = EMPTY
   \<and> permanentSprite (snd (flatten (\<lambda>t c. Inr (Texture 1))
        (paintBrush defaultBrush (\<lambda>k. 0) 3 4 1 initialCanvas)))
      \<noteq> permanentSprite (paintBrush defaultBrush (\<lambda>k. 0) 3 4 1 initialCanvas)
   \<and> fst (flatten (\<lambda>t c. Inr (Texture 1))
        (paintBrush defaultBrush (\<lambda>k. 0) 3 4 1 initialCanvas)) = None
   \<and> permanentSprite (snd (flatten (\<lambda>t c. Inr (Texture 1))
        (paintBrush defaultBrush (\<lambda>k. 0) 3 4 1 initialCanvas))) = Texture 1
   \<and> trail (snd (flatten (\<lambda>t c. Inr (Texture 1))
        (paintBrush defaultBrush (\<lambda>k. 0) 3 4 1 initialCanvas))) = []"
proof -
  let ?st = "paintBrush defaultBrush (\<lambda>k. 0) 3 4 1 initialCanvas"
  have st: "length (trail ?st) = 1" "destroyed ?st = []" "permanentSprite ?st = EMPTY"
    by (simp_all add: paintBrush_def Let_def initialCanvas_def defaultBrush_plain)
  have ok: "permanentSprite (snd (flatten (\<lambda>t c. Inr (Texture 1)) ?st)) \<noteq> permanentSprite ?st"
    "trail (snd (flatten (\<lambda>t c. Inr (Texture 1)) ?st)) = []"
    by (simp_all add: flatten_def drainTrail_eq st)
  have ne: "trail ?st \<noteq> []"
    using st(1) by auto
  show ?thesis
    using st ok ne flatten_failure_keeps_state [of "\<lambda>t c. Inl RasterError" ?st RasterError]
      flatten_failure_keeps_state [of "\<lambda>t c. Inr (Texture 1)" ?st]
    by simp
qed

text \<open>
  C2, as stated, fails: \<open>clear\<close> does not cancel the flatten timer. After a stroke was
  started and ended, the timeout 1 is pending; it is still pending after \<open>clear\<close>, and when
  it fires, \<open>flatten\<close> runs and the permanent sprite gets the generated texture.
\<close>

theorem clear_keeps_timer:
  "timers (run defaultBrush (\<lambda>k. 0) (\<lambda>t c. Inr (Texture 7))
      [Start \<lparr> ev_global = Point 0 0, ev_pressure = 1 \<rparr>, End] initialCanvas) = [1]
   \<and> timers (run defaultBrush (\<lambda>k. 0) (\<lambda>t c. Inr (Texture 7))
      [Start \<lparr> ev_global = Point 0 0, ev_pressure = 1 \<rparr>, End, Clear] initialCanvas) = [1]
   \<and> permanentSprite (run defaultBrush (\<lambda>k. 0) (\<lambda>t c. Inr (Texture 7))
      [Start \<lparr> ev_global = Point 0 0, ev_pressure = 1 \<rparr>, End, Clear] initialCanvas) = EMPTY
   \<and> permanentSprite (run defaultBrush (\<lambda>k. 0) (\<lambda>t c. Inr (Texture 7))
      [Start \<lparr> ev_global = Point 0 0, ev_pressure = 1 \<rparr>, End, Clear, Timer 1] initialCanvas) = Texture 7"
  by (simp add: onDrawStart_def onDrawEnd_def scheduleFlatten_def Let_def clear_def drainTrail_eq
      fireTimer_def flatten_def clearTimeout_def initialCanvas_def)

text \<open>
  C2, amended: for every call of \<open>clear\<close>, in any state, the permanent sprite is reset to
  the empty texture and every sprite of the trail is destroyed and removed from the stage,
  leaving the trail empty; the pending timeouts and \<open>flattenTimeout\<close> are as before.
\<close>

theorem clear_resets_surface_and_trail:
  "permanentSprite (clear st) = EMPTY
   \<and> trail (clear st) = []
   \<and> (\<forall>s \<in> set (trail st). sprite_id s \<in> set (destroyed (clear st))
        \<and> (\<forall>c \<in> set (stage (clear st)). sprite_id c \<noteq> sprite_id s))
   \<and> timers (clear st) = timers st
   \<and> flattenTimeout (clear st) = flattenTimeout st"
  by (auto simp: clear_def drainTrail_eq)

theorem clear_resets_surface_and_trail_witness:
  "trail (scheduleFlatten (paintBrush defaultBrush (\<lambda>k. 0) 3 4 1 initialCanvas)) \<noteq> []
   \<and> permanentSprite (clear (scheduleFlatten (paintBrush defaultBrush (\<lambda>k. 0) 3 4 1 initialCanvas))) = EMPTY
   \<and> trail (clear (scheduleFlatten (paintBrush defaultBrush (\<lambda>k. 0) 3 4 1 initialCanvas))) = []
   \<and> destroyed (clear (scheduleFlatten (paintBrush defaultBrush (\<lambda>k. 0) 3 4 1 initialCanvas))) = [0]
   \<and> stage (clear (scheduleFlatten (paintBrush defaultBrush (\<lambda>k. 0) 3 4 1 initialCanvas))) = []
   \<and> timers (clear (scheduleFlatten (paintBrush defaultBrush (\<lambda>k. 0) 3 4 1 initialCanvas))) = [1]"
  using clear_resets_surface_and_trail
    [of "scheduleFlatten (paintBrush defaultBrush (\<lambda>k. 0) 3 4 1 initialCanvas)"]
  by (simp add: clear_def drainTrail_eq scheduleFlatten_def paintBrush_def Let_def
      defaultBrush_def initialCanvas_def)

section \<open>Reachable states\<close>

text \<open>
  The invariant holds initially and after every input, so in every state of a run from the
  initial state; there the pointer handlers and \<open>clear\<close> throw nothing, and the lengths
  asked for in the theorems about \<open>onDrawMove\<close> and \<open>onDrawEnd\<close> agree.
\<close>

lemma pathInvariant_initial: "pathInvariant initialCanvas"
  by (simp add: pathInvariant_def initialCanvas_def)

lemma onDrawMove_invariant:
  assumes "pathInvariant st"
  shows "fst (onDrawMove brush rnd e st) = None \<and> pathInvariant (snd (onDrawMove brush rnd e st))"
proof (cases "accepted e st")
  case True
  from assms have len: "length (pressurePoints st) = length (pathPoints st)"
    by (simp add: pathInvariant_def)
  show ?thesis
    using True len
    by (simp add: onDrawMove_accepted[OF True len] pathInvariant_def drawSplineSegment_frame
        pushPoint_def accepted_def)
next
  case False
  show ?thesis
  proof (cases "isDrawing st")
    case True
    with assms have ne: "pathPoints st \<noteq> []"
      by (simp add: pathInvariant_def)
    then have lastp: "js_index (pathPoints st) (int (length (pathPoints st)) - 1) = Some (last (pathPoints st))"
      by (simp add: js_index_def last_conv_nth nat_diff_distrib')
    from False True ne have "hypot (px (ev_global e) - px (last (pathPoints st)))
              (py (ev_global e) - py (last (pathPoints st))) < 4"
      by (simp add: accepted_def)
    then show ?thesis
      using assms True by (simp add: onDrawMove_def Let_def lastp)
  next
    case False
    then show ?thesis
      using assms by (simp add: onDrawMove_def)
  qed
qed

lemma scheduleFlatten_frame:
  "isDrawing (scheduleFlatten st) = isDrawing st"
  "pathPoints (scheduleFlatten st) = pathPoints st"
  "pressurePoints (scheduleFlatten st) = pressurePoints st"
  by (simp_all add: scheduleFlatten_def Let_def clearTimeout_def split: option.splits)

lemma onDrawEnd_invariant:
  assumes "pathInvariant st"
  shows "fst (onDrawEnd brush rnd st) = None \<and> pathInvariant (snd (onDrawEnd brush rnd st))"
proof (cases "isDrawing st \<and> 2 \<le> length (pathPoints st)")
  case True
  from assms have len: "length (pressurePoints st) = length (pathPoints st)"
    by (simp add: pathInvariant_def)
  from True have d: "isDrawing st" and two: "2 \<le> length (pathPoints st)"
    by simp_all
  show ?thesis
    by (simp add: onDrawEnd_draws[OF d two len] pathInvariant_def scheduleFlatten_frame)
next
  case False
  then have "\<not> (isDrawing st \<and> 1 < length (pathPoints st))"
    by auto
  then have "onDrawEnd brush rnd st =
      (None, scheduleFlatten (st \<lparr> isDrawing := False, pathPoints := [], pressurePoints := [] \<rparr>))"
    by (auto simp: onDrawEnd_def)
  then show ?thesis
    by (simp add: pathInvariant_def scheduleFlatten_frame)
qed

lemma step_invariant:
  assumes "pathInvariant st"
  shows "pathInvariant (snd (step brush rnd g ev st))"
    and "(\<forall>h. ev \<noteq> Timer h) \<longrightarrow> fst (step brush rnd g ev st) = None"
proof -
  have "pathInvariant (snd (step brush rnd g ev st))
      \<and> ((\<forall>h. ev \<noteq> Timer h) \<longrightarrow> fst (step brush rnd g ev st) = None)"
  proof (cases ev)
    case (Start e)
    then show ?thesis
      by (simp add: onDrawStart_def pathInvariant_def)
  next
    case (Move e)
    then show ?thesis
      using onDrawMove_invariant[OF assms, of brush rnd e] by simp
  next
    case End
    then show ?thesis
      using onDrawEnd_invariant[OF assms, of brush rnd] by simp
  next
    case Clear
    then show ?thesis
      using assms by (simp add: clear_def drainTrail_eq pathInvariant_def)
  next
    case (Timer h)
    then show ?thesis
      using assms
      by (cases "g (permanentSprite st) (stage st)")
         (auto simp: fireTimer_def flatten_def clearTimeout_def drainTrail_eq pathInvariant_def)
  qed
  then show "pathInvariant (snd (step brush rnd g ev st))"
    and "(\<forall>h. ev \<noteq> Timer h) \<longrightarrow> fst (step brush rnd g ev st) = None"
    by simp_all
qed

lemma run_invariant:
  assumes "pathInvariant st"
  shows "pathInvariant (run brush rnd g es st)"
  using assms by (induction es arbitrary: st) (simp_all add: step_invariant)

end
